theory Spec2Isabelle
  imports Complex_Main "HOL-Library.List_Lexorder" "HOL-Library.Char_ord"
    "HOL-Library.Product_Lexorder" "HOL-Library.Log_Nat"
begin

section \<open>Dates\<close>

text \<open>
  The module \<^verbatim>\<open>ytd_calculations.py\<close> works on \<^verbatim>\<open>datetime\<close> values. A value has the
  calendar fields \<^verbatim>\<open>year\<close>, \<^verbatim>\<open>month\<close>, \<^verbatim>\<open>day\<close> and a time of day, which the module never
  reads on its own: \<open>tod\<close> is the time elapsed since midnight, in microseconds.
  Two values compare field by field, the year first.
\<close>

record datetime =
  year :: int
  month :: int
  day :: int
  tod :: nat

definition dt_key :: "datetime \<Rightarrow> int \<times> int \<times> int \<times> nat" where
  "dt_key d = (year d, month d, day d, tod d)"

definition dt_le :: "datetime \<Rightarrow> datetime \<Rightarrow> bool" where
  "dt_le a b = (dt_key a \<le> dt_key b)"

text \<open>
  The exceptions the module can raise, all of them from library calls: \<^verbatim>\<open>ValueError\<close> (the
  date parser of \<^verbatim>\<open>pandas.to_datetime\<close>, whose parse errors are subclasses of it, and
  the constructor \<^verbatim>\<open>datetime(y, m, d)\<close>), \<^verbatim>\<open>TypeError\<close> (a field of the missing date
  \<^verbatim>\<open>NaT\<close> used as an integer) and \<^verbatim>\<open>OverflowError\<close> (date arithmetic leaving the years
  1 to 9999).
\<close>

datatype error = ValueError | TypeError | OverflowError

definition error_name :: "error \<Rightarrow> string" where
  "error_name e = (case e of ValueError \<Rightarrow> ''ValueError'' | TypeError \<Rightarrow> ''TypeError''
                   | OverflowError \<Rightarrow> ''OverflowError'')"

definition and_then :: "error + 'a \<Rightarrow> ('a \<Rightarrow> error + 'b) \<Rightarrow> error + 'b" where
  "and_then r f = (case r of Inl e \<Rightarrow> Inl e | Inr x \<Rightarrow> f x)"

subsection \<open>The proleptic Gregorian calendar of Python's datetime\<close>

text \<open>
  \<^verbatim>\<open>datetime(y, m, d)\<close> and \<^verbatim>\<open>dt - timedelta(days=k)\<close> are library operations. They are
  modelled after the helper functions of the standard library's \<^verbatim>\<open>datetime\<close> module
  (\<^verbatim>\<open>_is_leap\<close>, \<^verbatim>\<open>_days_before_year\<close>, \<^verbatim>\<open>_days_in_month\<close>, \<^verbatim>\<open>_days_before_month\<close>,
  \<^verbatim>\<open>_ymd2ord\<close>, \<^verbatim>\<open>_ord2ymd\<close>): subtracting days converts the date to its ordinal (day 1 is
  1 January of year 1), subtracts, and converts back; the time of day is kept. Python's
  \<^verbatim>\<open>//\<close> and \<^verbatim>\<open>%\<close> on integers round towards minus infinity, as \<open>div\<close> and \<open>mod\<close> on
  \<open>int\<close> do.
\<close>

definition is_leap :: "int \<Rightarrow> bool" where
  "is_leap y = (y mod 4 = 0 \<and> (y mod 100 \<noteq> 0 \<or> y mod 400 = 0))"

definition days_before_year :: "int \<Rightarrow> int" where
  "days_before_year y = (let y1 = y - 1 in y1 * 365 + y1 div 4 - y1 div 100 + y1 div 400)"

definition DAYS_IN_MONTH :: "int list" where
  "DAYS_IN_MONTH = [-1, 31, 28, 31, 30, 31, 30, 31, 31, 30, 31, 30, 31]"

definition DAYS_BEFORE_MONTH :: "int list" where
  "DAYS_BEFORE_MONTH = [-1, 0, 31, 59, 90, 120, 151, 181, 212, 243, 273, 304, 334]"

definition days_in_month :: "int \<Rightarrow> int \<Rightarrow> int" where
  "days_in_month y m = (if m = 2 \<and> is_leap y then 29 else DAYS_IN_MONTH ! nat m)"

definition days_before_month :: "int \<Rightarrow> int \<Rightarrow> int" where
  "days_before_month y m = DAYS_BEFORE_MONTH ! nat m + (if m > 2 \<and> is_leap y then 1 else 0)"

definition ymd2ord :: "int \<Rightarrow> int \<Rightarrow> int \<Rightarrow> int" where
  "ymd2ord y m d = days_before_year y + days_before_month y m + d"

definition ord2ymd :: "int \<Rightarrow> int \<times> int \<times> int" where
  "ord2ymd n =
     (let n0 = n - 1;
          n400 = n0 div 146097; r400 = n0 mod 146097;
          n100 = r400 div 36524; r100 = r400 mod 36524;
          n4 = r100 div 1461; r4 = r100 mod 1461;
          n1 = r4 div 365; r1 = r4 mod 365;
          y = n400 * 400 + 1 + n100 * 100 + n4 * 4 + n1
      in if n1 = 4 \<or> n100 = 4 then (y - 1, 12, 31)
         else
           let leapyear = (n1 = 3 \<and> (n4 \<noteq> 24 \<or> n100 = 3));
               m = (r1 + 50) div 32;
               preceding = DAYS_BEFORE_MONTH ! nat m + (if m > 2 \<and> leapyear then 1 else 0)
           in if preceding > r1
              then (let m' = m - 1;
                        preceding' = preceding
                          - (DAYS_IN_MONTH ! nat m' + (if m' = 2 \<and> leapyear then 1 else 0))
                    in (y, m', r1 - preceding' + 1))
              else (y, m, r1 - preceding + 1))"

definition toordinal :: "datetime \<Rightarrow> int" where
  "toordinal dt = ymd2ord (year dt) (month dt) (day dt)"

definition MAXORDINAL :: int where
  "MAXORDINAL = 3652059"

definition valid_datetime :: "datetime \<Rightarrow> bool" where
  "valid_datetime dt =
     (1 \<le> year dt \<and> year dt \<le> 9999 \<and> 1 \<le> month dt \<and> month dt \<le> 12 \<and>
      1 \<le> day dt \<and> day dt \<le> days_in_month (year dt) (month dt) \<and> tod dt < 86400000000)"

text \<open>\<^verbatim>\<open>datetime(y, m, d)\<close>: midnight of the given day, \<^verbatim>\<open>ValueError\<close> outside the calendar.\<close>

definition new_datetime :: "int \<Rightarrow> int \<Rightarrow> int \<Rightarrow> error + datetime" where
  "new_datetime y m d =
     (if 1 \<le> y \<and> y \<le> 9999 \<and> 1 \<le> m \<and> m \<le> 12 \<and> 1 \<le> d \<and> d \<le> days_in_month y m
      then Inr \<lparr>year = y, month = m, day = d, tod = 0\<rparr>
      else Inl ValueError)"

text \<open>\<^verbatim>\<open>dt - timedelta(days=k)\<close>: \<^verbatim>\<open>OverflowError\<close> when the result leaves the calendar.\<close>

definition sub_days :: "datetime \<Rightarrow> int \<Rightarrow> error + datetime" where
  "sub_days dt k =
     (let n = toordinal dt - k
      in if 0 < n \<and> n \<le> MAXORDINAL
         then (case ord2ymd n of (y, m, d) \<Rightarrow> Inr \<lparr>year = y, month = m, day = d, tod = tod dt\<rparr>)
         else Inl OverflowError)"

subsection \<open>Decimal strings\<close>

text \<open>\<^verbatim>\<open>str(n)\<close> on an integer, and the slice \<^verbatim>\<open>s[-2:]\<close>, which keeps a shorter string whole.\<close>

definition digit_char :: "nat \<Rightarrow> char" where
  "digit_char n = ''0123456789'' ! n"

fun str_nat :: "nat \<Rightarrow> string" where
  "str_nat n = (if n < 10 then [digit_char n] else str_nat (n div 10) @ [digit_char (n mod 10)])"

declare str_nat.simps [simp del]

definition str_int :: "int \<Rightarrow> string" where
  "str_int i = (if i < 0 then CHR ''-'' # str_nat (nat (- i)) else str_nat (nat i))"

definition last_two_chars :: "string \<Rightarrow> string" where
  "last_two_chars s = (if length s \<le> 2 then s else drop (length s - 2) s)"

section \<open>Fiscal calendar\<close>

definition get_fiscal_year :: "datetime \<Rightarrow> string" where
  "get_fiscal_year date =
     (case (if month date \<ge> 4 then (year date, year date + 1)
            else (year date - 1, year date)) of
        (fy_start, fy_end) \<Rightarrow> ''FY '' @ str_int fy_start @ ''-'' @ last_two_chars (str_int fy_end))"

definition get_ytd_date_range :: "datetime \<Rightarrow> error + (datetime \<times> datetime)" where
  "get_ytd_date_range as_of_date =
     and_then (if month as_of_date \<ge> 4 then new_datetime (year as_of_date) 4 1
          else new_datetime (year as_of_date - 1) 4 1)
       (\<lambda>fiscal_year_start. Inr (fiscal_year_start, as_of_date))"

text \<open>
  The label in the specification's words: the start year in decimal, a hyphen, and the last
  two decimal digits of the end year, which is the year after the start year (a year
  below 10 has a single digit).
\<close>

definition last_two_digits :: "int \<Rightarrow> string" where
  "last_two_digits e =
     (if e < 10 then [digit_char (nat e)]
      else [digit_char (nat (e div 10 mod 10)), digit_char (nat (e mod 10))])"

definition fy_label :: "int \<Rightarrow> string" where
  "fy_label start = ''FY '' @ str_int start @ ''-'' @ last_two_digits (start + 1)"

section \<open>Sales tables\<close>

text \<open>
  A sales table is a pandas \<^verbatim>\<open>DataFrame\<close> with the columns \<^verbatim>\<open>date\<close>, \<^verbatim>\<open>product_name\<close>,
  \<^verbatim>\<open>sales_amount\<close> and \<^verbatim>\<open>quantity\<close>, here a list of rows. A cell of the \<^verbatim>\<open>date\<close> column
  of a table the caller passes is either text or already a \<^verbatim>\<open>datetime\<close>; values that pandas
  reads as missing (\<^verbatim>\<open>None\<close>, \<^verbatim>\<open>NaN\<close>, the empty text) are outside the model. The columns
  \<^verbatim>\<open>year_month\<close> and \<^verbatim>\<open>fiscal_year\<close> are absent (\<open>None\<close>) from a table until
  \<^verbatim>\<open>get_monthly_trends\<close> assigns them. The column \<^verbatim>\<open>sales_amount\<close> holds 64-bit binary
  floating-point numbers and the column \<^verbatim>\<open>quantity\<close> 64-bit signed integers; a cell is
  modelled by the rational number, or the integer, that it denotes. Infinities and
  \<^verbatim>\<open>NaN\<close> are not values of a cell of the model.
\<close>

datatype date_cell = Text string | Stamp datetime

record 'd sales_row =
  date :: 'd
  product_name :: string
  sales_amount :: rat
  quantity :: int
  year_month :: "(int \<times> int) option"
  fiscal_year :: "string option"

text \<open>
  \<^verbatim>\<open>pd.to_datetime(df['date'])\<close> with the default \<^verbatim>\<open>errors='raise'\<close>: every cell is
  converted, and the first text the parser rejects raises. The parser is the library's; it
  is a parameter \<open>parse\<close>, \<open>None\<close> on a text it cannot read. pandas infers one format
  from the first text of a column and reads the other texts of the column by it, so \<open>parse\<close>
  stands for the reading of a text in the column at hand, not for a reading that is the
  same in every column. A blank or missing cell is not a text the parser rejects: pandas
  reads it as the missing date \<^verbatim>\<open>NaT\<close> and raises nothing; the model has no such cell.
\<close>

definition to_datetime_cell :: "(string \<Rightarrow> datetime option) \<Rightarrow> date_cell \<Rightarrow> error + datetime" where
  "to_datetime_cell parse c =
     (case c of Stamp d \<Rightarrow> Inr d
      | Text s \<Rightarrow> (case parse s of None \<Rightarrow> Inl ValueError | Some d \<Rightarrow> Inr d))"

fun to_datetime :: "(string \<Rightarrow> datetime option) \<Rightarrow> date_cell list \<Rightarrow> error + datetime list" where
  "to_datetime parse [] = Inr []"
| "to_datetime parse (c # cs) =
     and_then (to_datetime_cell parse c)
       (\<lambda>d. and_then (to_datetime parse cs) (\<lambda>ds. Inr (d # ds)))"

text \<open>The assignment \<^verbatim>\<open>df['date'] = ...\<close> replaces the column of the table it is given.\<close>

definition set_date :: "'a sales_row \<Rightarrow> 'b \<Rightarrow> 'b sales_row" where
  "set_date r d =
     \<lparr>date = d, product_name = sales_row.product_name r, sales_amount = sales_amount r,
      quantity = quantity r, year_month = year_month r,
      fiscal_year = sales_row.fiscal_year r\<rparr>"

definition assign_date :: "'a sales_row list \<Rightarrow> 'b list \<Rightarrow> 'b sales_row list" where
  "assign_date df ds = map (\<lambda>(r, d). set_date r d) (zip df ds)"

text \<open>\<^verbatim>\<open>df['date'].max()\<close>: the latest date, and the missing date \<^verbatim>\<open>NaT\<close> on an empty column.\<close>

fun series_max :: "datetime list \<Rightarrow> datetime option" where
  "series_max [] = None"
| "series_max (d # ds) = Some (fold (\<lambda>x m. if dt_le m x then x else m) ds d)"

section \<open>Period windows\<close>

record period_windows =
  ytd_start :: datetime
  ytd_end :: datetime
  pytd_start :: datetime
  pytd_end :: datetime
  p1ytd_start :: datetime
  p1ytd_end :: datetime

text \<open>Lines 79 to 87 of \<^verbatim>\<open>calculate_ytd_metrics\<close>.\<close>

definition ytd_windows :: "datetime \<Rightarrow> error + period_windows" where
  "ytd_windows as_of_date =
     and_then (get_ytd_date_range as_of_date) (\<lambda>(ys, ye).
     and_then (sub_days ys 365) (\<lambda>ps.
     and_then (sub_days ye 365) (\<lambda>pe.
     and_then (sub_days ys 730) (\<lambda>qs.
     and_then (sub_days ye 730) (\<lambda>qe.
       Inr \<lparr>ytd_start = ys, ytd_end = ye, pytd_start = ps, pytd_end = pe,
            p1ytd_start = qs, p1ytd_end = qe\<rparr>)))))"

section \<open>Period aggregation\<close>

text \<open>
  \<^verbatim>\<open>df[(df['date'] >= start) & (df['date'] <= end)]\<close> keeps the rows whose date lies between
  the two bounds.
\<close>

definition in_period :: "datetime \<Rightarrow> datetime \<Rightarrow> datetime sales_row \<Rightarrow> bool" where
  "in_period period_start period_end r = (dt_le period_start (date r) \<and> dt_le (date r) period_end)"

subsection \<open>The arithmetic of the columns\<close>

text \<open>
  Sums of an integer column are taken in 64-bit signed integers, which wrap around
  silently: \<open>wrap64\<close> reduces an integer into the range from \<open>- 2 ^ 63\<close> to \<open>2 ^ 63 - 1\<close>.
\<close>

definition wrap64 :: "int \<Rightarrow> int" where
  "wrap64 x = (x + 2 ^ 63) mod 2 ^ 64 - 2 ^ 63"

text \<open>
  Sums and differences of floating-point numbers are rounded to the nearest number with a
  significand of 53 bits, a tie going to the even significand (IEEE 754 binary64, the
  default rounding). \<open>f64_exponent x\<close> is the integer \<open>e\<close> with
  \<open>2 ^ e \<le> \<bar>x\<bar> < 2 ^ (e + 1)\<close>; the numbers next to \<open>x\<close> are the multiples of
  \<open>2 ^ (e - 52)\<close>, and of \<open>2 ^ - 1074\<close> in the subnormal range. The model has no
  infinities: a result of magnitude \<open>2 ^ 1024\<close> or more stands for an overflow, on which
  the code continues with an infinity (\<open>f64_finite\<close> is false of it). The sign of a zero is
  not modelled.
\<close>

definition round_half_even :: "rat \<Rightarrow> int" where
  "round_half_even y =
     (let f = \<lfloor>y\<rfloor>; d = y - of_int f
      in if d < 1 / 2 then f else if d > 1 / 2 then f + 1 else if even f then f else f + 1)"

definition f64_exponent :: "rat \<Rightarrow> int" where
  "f64_exponent x =
     (if 1 \<le> \<bar>x\<bar> then bitlen \<lfloor>\<bar>x\<bar>\<rfloor> - 1 else - bitlen (\<lceil>1 / \<bar>x\<bar>\<rceil> - 1))"

definition round_f64 :: "rat \<Rightarrow> rat" where
  "round_f64 x =
     (if x = 0 then 0
      else let qe = max (f64_exponent x - 52) (- 1074)
           in if 0 \<le> qe then of_int (round_half_even (x / 2 ^ nat qe)) * 2 ^ nat qe
              else of_int (round_half_even (x * 2 ^ nat (- qe))) / 2 ^ nat (- qe))"

definition f64_add :: "rat \<Rightarrow> rat \<Rightarrow> rat" where
  "f64_add x y = round_f64 (x + y)"

definition f64_sub :: "rat \<Rightarrow> rat \<Rightarrow> rat" where
  "f64_sub x y = round_f64 (x - y)"

definition f64_finite :: "rat \<Rightarrow> bool" where
  "f64_finite x = (\<bar>x\<bar> < 2 ^ 1024)"

subsection \<open>Grouped sums\<close>

text \<open>
  \<^verbatim>\<open>groupby(key).agg({'sales_amount': 'sum', 'quantity': 'sum'}).reset_index()\<close>: one
  row per key, in ascending order of the keys (pandas sorts the group keys), holding the
  sums of the two columns over the rows of the group. pandas' \<^verbatim>\<open>group_sum\<close> runs over the
  rows in their order and keeps, for every group and column, a running sum and a
  compensation, both zero at the start (Kahan summation):
  \<^verbatim>\<open>y = val - compensation; t = sumx + y; compensation = t - sumx - y; sumx = t\<close>.
  On an integer column the same steps are taken in 64-bit integers, where the compensation
  stays zero and the running sum is the wrapped sum.
\<close>

definition kahan_step :: "rat \<times> rat \<Rightarrow> rat \<Rightarrow> rat \<times> rat" where
  "kahan_step st val =
     (case st of (sumx, compensation) \<Rightarrow>
        let y = f64_sub val compensation;
            t = f64_add sumx y
        in (t, f64_sub (f64_sub t sumx) y))"

definition group_step :: "(rat \<times> rat) \<times> int \<Rightarrow> rat \<Rightarrow> int \<Rightarrow> (rat \<times> rat) \<times> int" where
  "group_step st v q = (kahan_step (fst st) v, wrap64 (snd st + q))"

fun add_to_group ::
  "'k::linorder \<Rightarrow> rat \<Rightarrow> int \<Rightarrow> ('k \<times> (rat \<times> rat) \<times> int) list
     \<Rightarrow> ('k \<times> (rat \<times> rat) \<times> int) list" where
  "add_to_group k v q [] = [(k, group_step ((0, 0), 0) v q)]"
| "add_to_group k v q ((k', st) # gs) =
     (if k = k' then (k', group_step st v q) # gs
      else if k < k' then (k, group_step ((0, 0), 0) v q) # (k', st) # gs
      else (k', st) # add_to_group k v q gs)"

definition groupby_sum ::
  "('r \<Rightarrow> 'k::linorder) \<Rightarrow> ('r \<Rightarrow> rat) \<Rightarrow> ('r \<Rightarrow> int) \<Rightarrow> 'r list \<Rightarrow> ('k \<times> rat \<times> int) list" where
  "groupby_sum key amount qty rows =
     map (\<lambda>(k, (sumx, compensation), q). (k, sumx, q))
       (fold (\<lambda>r. add_to_group (key r) (amount r) (qty r)) rows [])"

text \<open>
  The floating-point sum of a list of amounts taken in their order, as one group
  accumulates it, and whether every number computed on the way is finite.
\<close>

definition f64_sum :: "rat list \<Rightarrow> rat" where
  "f64_sum vs = fst (fold (\<lambda>v st. kahan_step st v) vs (0, 0))"

fun kahan_finite :: "rat \<times> rat \<Rightarrow> rat list \<Rightarrow> bool" where
  "kahan_finite st [] = True"
| "kahan_finite st (v # vs) =
     (f64_finite (f64_sub v (snd st)) \<and> f64_finite (fst (kahan_step st v)) \<and>
      f64_finite (snd (kahan_step st v)) \<and> kahan_finite (kahan_step st v) vs)"

definition f64_sum_finite :: "rat list \<Rightarrow> bool" where
  "f64_sum_finite vs = kahan_finite (0, 0) vs"

type_synonym summary = "(string \<times> rat \<times> int) list"

definition period_summary :: "datetime sales_row list \<Rightarrow> datetime \<Rightarrow> datetime \<Rightarrow> summary" where
  "period_summary df period_start period_end =
     groupby_sum sales_row.product_name sales_amount quantity
       (filter (in_period period_start period_end) df)"

text \<open>The total of a product in a summary, zero when the summary has no row for it.\<close>

definition summary_sales :: "summary \<Rightarrow> string \<Rightarrow> rat" where
  "summary_sales s p = (case map_of s p of None \<Rightarrow> 0 | Some (v, q) \<Rightarrow> v)"

definition summary_quantity :: "summary \<Rightarrow> string \<Rightarrow> int" where
  "summary_quantity s p = (case map_of s p of None \<Rightarrow> 0 | Some (v, q) \<Rightarrow> q)"

section \<open>Assembling the metrics\<close>

record metrics_row =
  product_name :: string
  ytd_sales :: rat
  ytd_quantity :: int
  pytd_sales :: rat
  pytd_quantity :: int
  p1ytd_sales :: rat
  p1ytd_quantity :: int
  as_of_date :: datetime
  fiscal_year :: string

text \<open>
  \<^verbatim>\<open>left.merge(right, on='product_name', how='outer')\<close> on tables with one row per
  product: one row per product of either table, in ascending order of the product names;
  the cells of the side that has no row for the product are missing (\<open>None\<close>, pandas'
  \<^verbatim>\<open>NaN\<close>).
\<close>

definition merge_outer ::
  "(string \<times> 'a) list \<Rightarrow> (string \<times> 'b) list \<Rightarrow> (string \<times> 'a option \<times> 'b option) list" where
  "merge_outer left right =
     map (\<lambda>k. (k, map_of left k, map_of right k)) (sort (remdups (map fst left @ map fst right)))"

text \<open>\<^verbatim>\<open>fillna(0)\<close> on one cell.\<close>

definition fillna :: "'a::zero option \<Rightarrow> 'a" where
  "fillna c = (case c of None \<Rightarrow> 0 | Some v \<Rightarrow> v)"

text \<open>
  Lines 119 to 127 of \<^verbatim>\<open>calculate_ytd_metrics\<close>: the two merges, \<^verbatim>\<open>fillna(0)\<close>, and the
  two constant columns. A row of the first merge that is missing in the second has all four
  of its cells missing. pandas holds a quantity column that received a missing value as
  64-bit floating-point numbers, which changes no quantity of magnitude up to \<open>2 ^ 53\<close> and
  rounds a larger one; the model keeps the integer, so it describes the merge for
  quantities of magnitude up to \<open>2 ^ 53\<close>.
\<close>

definition merge_metrics ::
  "summary \<Rightarrow> summary \<Rightarrow> summary \<Rightarrow> datetime \<Rightarrow> string \<Rightarrow> metrics_row list" where
  "merge_metrics ytd_summary pytd_summary p1ytd_summary as_of current_fy =
     map (\<lambda>(k, yp, q).
            let y = (case yp of None \<Rightarrow> None | Some (y, p) \<Rightarrow> y);
                p = (case yp of None \<Rightarrow> None | Some (y, p) \<Rightarrow> p)
            in \<lparr>product_name = k,
                ytd_sales = fillna (map_option fst y), ytd_quantity = fillna (map_option snd y),
                pytd_sales = fillna (map_option fst p), pytd_quantity = fillna (map_option snd p),
                p1ytd_sales = fillna (map_option fst q), p1ytd_quantity = fillna (map_option snd q),
                as_of_date = as_of, fiscal_year = current_fy\<rparr>)
         (merge_outer (merge_outer ytd_summary pytd_summary) p1ytd_summary)"

section \<open>The metrics of a sales table\<close>

text \<open>
  \<^verbatim>\<open>calculate_ytd_metrics(df, as_of_date=None)\<close>. The function assigns to the \<^verbatim>\<open>date\<close>
  column of the table it is given, so the model returns the caller's table after the call
  next to the outcome; \<open>as_of_arg\<close> is the argument \<^verbatim>\<open>as_of_date\<close>, \<open>None\<close> when it
  is not supplied. With no as-of date and an empty table the as-of date is \<^verbatim>\<open>NaT\<close>,
  and \<^verbatim>\<open>get_ytd_date_range\<close> raises \<^verbatim>\<open>TypeError\<close> when it passes the year of \<^verbatim>\<open>NaT\<close> to
  \<^verbatim>\<open>datetime\<close>. The lines the function prints are not modelled.
\<close>

definition default_as_of :: "datetime list \<Rightarrow> datetime option \<Rightarrow> datetime option" where
  "default_as_of dates as_of_arg =
     (case as_of_arg of None \<Rightarrow> series_max dates | Some a \<Rightarrow> Some a)"

definition calculate_ytd_metrics ::
  "(string \<Rightarrow> datetime option) \<Rightarrow> date_cell sales_row list \<Rightarrow> datetime option
     \<Rightarrow> date_cell sales_row list \<times> (error + metrics_row list)" where
  "calculate_ytd_metrics parse df as_of_arg =
     (case to_datetime parse (map date df) of
        Inl e \<Rightarrow> (df, Inl e)
      | Inr dates \<Rightarrow>
          (assign_date df (map Stamp dates),
           case default_as_of dates as_of_arg of
             None \<Rightarrow> Inl TypeError
           | Some as_of \<Rightarrow>
               let current_fy = get_fiscal_year as_of
               in and_then (ytd_windows as_of) (\<lambda>w.
                    let df' = assign_date df dates;
                        ytd_summary = period_summary df' (ytd_start w) (ytd_end w);
                        pytd_summary = period_summary df' (pytd_start w) (pytd_end w);
                        p1ytd_summary = period_summary df' (p1ytd_start w) (p1ytd_end w)
                    in Inr (merge_metrics ytd_summary pytd_summary p1ytd_summary
                              as_of current_fy))))"

section \<open>Deltas and growth\<close>

text \<open>
  The growth columns are floating-point divisions of columns that may hold zero. pandas
  does not raise on a zero divisor: the quotient of a non-zero number by zero is an
  infinity with the sign of the number (the zero of \<^verbatim>\<open>fillna(0)\<close> and of a sum of
  amounts is the positive zero), and zero by zero is \<^verbatim>\<open>NaN\<close>. The call
  \<^verbatim>\<open>.replace([float('inf'), -float('inf')], 0)\<close> replaces the two infinities and nothing
  else. The differences and the quotients of \<open>calculate_deltas\<close> are taken exactly in the
  model; the rounding of the floating-point operations is modelled for the grouped sums
  only.
\<close>

datatype fval = Finite rat | PosInf | NegInf | NaN

definition true_div :: "rat \<Rightarrow> rat \<Rightarrow> fval" where
  "true_div x y =
     (if y \<noteq> 0 then Finite (x / y)
      else if x > 0 then PosInf else if x < 0 then NegInf else NaN)"

definition times_100 :: "fval \<Rightarrow> fval" where
  "times_100 x = (case x of Finite v \<Rightarrow> Finite (v * 100) | PosInf \<Rightarrow> PosInf
                  | NegInf \<Rightarrow> NegInf | NaN \<Rightarrow> NaN)"

definition replace_inf :: "fval \<Rightarrow> fval" where
  "replace_inf x = (case x of PosInf \<Rightarrow> Finite 0 | NegInf \<Rightarrow> Finite 0 | _ \<Rightarrow> x)"

definition growth_pct :: "rat \<Rightarrow> rat \<Rightarrow> fval" where
  "growth_pct current base = replace_inf (times_100 (true_div (current - base) base))"

definition performance_of :: "rat \<Rightarrow> string" where
  "performance_of x = (if x > 0 then ''Growing'' else (if x < 0 then ''Declining'' else ''Stable''))"

record deltas_row = metrics_row +
  delta_ytd_pytd :: rat
  delta_ytd_p1ytd :: rat
  delta_pytd_p1ytd :: rat
  growth_ytd_vs_pytd_pct :: fval
  growth_ytd_vs_p1ytd_pct :: fval
  qty_delta_ytd_pytd :: int
  qty_delta_ytd_p1ytd :: int
  abs_delta_ytd_pytd :: rat
  performance :: string

text \<open>\<^verbatim>\<open>calculate_deltas(metrics)\<close> works on a copy and adds nine columns to it.\<close>

definition deltas_of :: "metrics_row \<Rightarrow> deltas_row" where
  "deltas_of m =
     metrics_row.extend m
       (deltas_row.fields
          (ytd_sales m - pytd_sales m)
          (ytd_sales m - p1ytd_sales m)
          (pytd_sales m - p1ytd_sales m)
          (growth_pct (ytd_sales m) (pytd_sales m))
          (growth_pct (ytd_sales m) (p1ytd_sales m))
          (ytd_quantity m - pytd_quantity m)
          (ytd_quantity m - p1ytd_quantity m)
          \<bar>ytd_sales m - pytd_sales m\<bar>
          (performance_of (ytd_sales m - pytd_sales m)))"

definition calculate_deltas :: "metrics_row list \<Rightarrow> deltas_row list" where
  "calculate_deltas metrics = map deltas_of metrics"

section \<open>Monthly trends\<close>

text \<open>
  \<^verbatim>\<open>get_monthly_trends(df)\<close> assigns three columns of the table it is given (\<^verbatim>\<open>date\<close>,
  \<^verbatim>\<open>year_month\<close>, \<^verbatim>\<open>fiscal_year\<close>) and groups by month, fiscal year and product. A row of
  the result holds the first day of the month (\<^verbatim>\<open>to_timestamp\<close> of the monthly period), the
  fiscal year, the product and the two sums.
\<close>

definition set_trend_columns :: "'a sales_row \<Rightarrow> datetime \<Rightarrow> date_cell sales_row" where
  "set_trend_columns r d =
     \<lparr>date = Stamp d, product_name = sales_row.product_name r, sales_amount = sales_amount r,
      quantity = quantity r, year_month = Some (year d, month d),
      fiscal_year = Some (get_fiscal_year d)\<rparr>"

definition get_monthly_trends ::
  "(string \<Rightarrow> datetime option) \<Rightarrow> date_cell sales_row list
     \<Rightarrow> date_cell sales_row list \<times> (error + (datetime \<times> string \<times> string \<times> rat \<times> int) list)" where
  "get_monthly_trends parse df =
     (case to_datetime parse (map date df) of
        Inl e \<Rightarrow> (df, Inl e)
      | Inr dates \<Rightarrow>
          (map (\<lambda>(r, d). set_trend_columns r d) (zip df dates),
           let monthly =
                 groupby_sum
                   (\<lambda>(r, d). ((year d, month d), get_fiscal_year d, sales_row.product_name r))
                   (\<lambda>(r, d). sales_amount r) (\<lambda>(r, d). quantity r) (zip df dates)
           in Inr (map (\<lambda>(((y, m), fy, p), v, q).
                          (\<lparr>year = y, month = m, day = 1, tod = 0\<rparr>, fy, p, v, q))
                     monthly)))"

text \<open>
  The running state of a key in the table of groups, the state at the start when the key
  has no group yet; used to state what \<open>groupby_sum\<close> computes.
\<close>

definition state_of :: "('k \<times> (rat \<times> rat) \<times> int) list \<Rightarrow> 'k \<Rightarrow> (rat \<times> rat) \<times> int" where
  "state_of gs p = (case map_of gs p of None \<Rightarrow> ((0, 0), 0) | Some st \<Rightarrow> st)"

text \<open>The records of a product inside a window, in the order of the table.\<close>

definition period_records ::
  "datetime sales_row list \<Rightarrow> datetime \<Rightarrow> datetime \<Rightarrow> string \<Rightarrow> datetime sales_row list" where
  "period_records df period_start period_end p =
     filter (\<lambda>r. sales_row.product_name r = p \<and>
                  dt_le period_start (date r) \<and> dt_le (date r) period_end) df"

section \<open>Properties of the fiscal calendar\<close>

lemma str_nat_last:
  "str_nat n \<noteq> [] \<and> last (str_nat n) = digit_char (n mod 10)"
  by (subst (1 2) str_nat.simps) simp

lemma drop_all_but_last:
  assumes "xs \<noteq> []"
  shows "drop (length xs - Suc 0) xs = [last xs]"
proof -
  have "drop (length (butlast xs)) (butlast xs @ [last xs]) = [last xs]"
    by simp
  with assms show ?thesis
    by simp
qed

lemma last_two_chars_str_nat:
  assumes "10 \<le> n"
  shows "last_two_chars (str_nat n) = [digit_char (n div 10 mod 10), digit_char (n mod 10)]"
proof -
  let ?xs = "str_nat (n div 10)"
  have ne: "?xs \<noteq> []" and l: "last ?xs = digit_char (n div 10 mod 10)"
    using str_nat_last [of "n div 10"] by simp_all
  have unfold: "str_nat n = ?xs @ [digit_char (n mod 10)]"
    using assms by (subst str_nat.simps) simp
  have len: "length ?xs \<ge> 1"
    using ne by (cases ?xs) simp_all
  show ?thesis
  proof (cases "length ?xs = 1")
    case True
    then obtain c where c: "?xs = [c]"
      by (cases ?xs) simp_all
    with l show ?thesis
      by (simp add: unfold last_two_chars_def)
  next
    case False
    with len have "length ?xs \<ge> 2" by simp
    then show ?thesis
      using drop_all_but_last [OF ne] l
      by (simp add: unfold last_two_chars_def)
  qed
qed

lemma last_two_chars_year:
  assumes "0 \<le> e"
  shows "last_two_chars (str_int e) = last_two_digits e"
proof (cases "e < 10")
  case True
  with assms show ?thesis
    by (simp add: str_int_def last_two_digits_def last_two_chars_def str_nat.simps)
next
  case False
  then have "10 \<le> nat e" by simp
  from last_two_chars_str_nat [OF this] False assms show ?thesis
    by (simp add: str_int_def last_two_digits_def nat_div_distrib nat_mod_distrib)
qed

text \<open>
  C2. For every valid calendar date, \<open>get_fiscal_year\<close> returns the label of the fiscal year
  that starts in the year before the date's year when the month is January, February or
  March, and in the date's year when the month is April to December; the label is
  \<^verbatim>\<open>FY\<close>, the start year, a hyphen and the last two digits of the end year. The function
  has a value on every date (it is a total function without effects), and every valid month
  falls in one of the two cases.
\<close>

theorem get_fiscal_year_label:
  assumes "valid_datetime d"
  shows "(month d \<in> {1, 2, 3} \<longrightarrow> get_fiscal_year d = fy_label (year d - 1)) \<and>
         (month d \<in> {4..12} \<longrightarrow> get_fiscal_year d = fy_label (year d)) \<and>
         (month d \<in> {1, 2, 3} \<or> month d \<in> {4..12})"
proof -
  from assms have y: "1 \<le> year d" and m: "1 \<le> month d" "month d \<le> 12"
    by (simp_all add: valid_datetime_def)
  have early: "get_fiscal_year d = fy_label (year d - 1)" if "month d < 4"
    using that y last_two_chars_year [of "year d"]
    by (simp add: get_fiscal_year_def fy_label_def)
  have late: "get_fiscal_year d = fy_label (year d)" if "4 \<le> month d"
    using that y last_two_chars_year [of "year d + 1"]
    by (simp add: get_fiscal_year_def fy_label_def)
  have cases: "month d \<in> {1, 2, 3} \<or> month d \<in> {4..12}"
    using m by simp arith
  from early late cases show ?thesis
    by auto
qed

theorem get_fiscal_year_label_witness:
  "valid_datetime \<lparr>year = 2024, month = 2, day = 29, tod = 0\<rparr> \<and>
   get_fiscal_year \<lparr>year = 2024, month = 2, day = 29, tod = 0\<rparr> = ''FY 2023-24'' \<and>
   fy_label 2023 = ''FY 2023-24''"
proof -
  have v: "valid_datetime \<lparr>year = 2024, month = 2, day = 29, tod = 0\<rparr>"
    by (simp add: valid_datetime_def days_in_month_def is_leap_def)
  have l: "fy_label 2023 = ''FY 2023-24''"
    by (simp add: fy_label_def str_int_def str_nat.simps digit_char_def last_two_digits_def)
  from get_fiscal_year_label [OF v] l v show ?thesis
    by simp
qed

section \<open>Date arithmetic\<close>

lemma mod_zero_iff_full:
  fixes v b :: int
  assumes "1 \<le> v" "v \<le> b"
  shows "v mod b = 0 \<longleftrightarrow> v = b"
proof (cases "v = b")
  case True
  then show ?thesis by simp
next
  case False
  with assms have "v mod b = v" by simp
  with assms False show ?thesis by simp
qed

lemma leap_decomp:
  fixes n400 n100 n4 n1 :: int
  assumes "0 \<le> n100" "n100 \<le> 3" "0 \<le> n4" "n4 \<le> 24" "0 \<le> n1" "n1 \<le> 3"
  shows "is_leap (n400 * 400 + 1 + n100 * 100 + n4 * 4 + n1) = (n1 = 3 \<and> (n4 \<noteq> 24 \<or> n100 = 3))"
proof -
  let ?y = "n400 * 400 + 1 + n100 * 100 + n4 * 4 + n1"
  have m4: "?y mod 4 = (n1 + 1) mod 4"
  proof -
    have "?y = (n1 + 1) + 4 * (100 * n400 + 25 * n100 + n4)" by simp
    then show ?thesis by (metis mod_mult_self2)
  qed
  have m100: "?y mod 100 = (n4 * 4 + n1 + 1) mod 100"
  proof -
    have "?y = (n4 * 4 + n1 + 1) + 100 * (4 * n400 + n100)" by simp
    then show ?thesis by (metis mod_mult_self2)
  qed
  have m400: "?y mod 400 = (n100 * 100 + n4 * 4 + n1 + 1) mod 400"
  proof -
    have "?y = (n100 * 100 + n4 * 4 + n1 + 1) + 400 * n400" by simp
    then show ?thesis by (metis mod_mult_self2)
  qed
  have a: "(n1 + 1) mod 4 = 0 \<longleftrightarrow> n1 = 3"
    using mod_zero_iff_full [of "n1 + 1" 4] assms by simp
  have b: "(n4 * 4 + n1 + 1) mod 100 = 0 \<longleftrightarrow> n4 = 24 \<and> n1 = 3"
  proof -
    have "n4 * 4 + n1 + 1 = 100 \<longleftrightarrow> n4 = 24 \<and> n1 = 3"
      using assms by arith
    with mod_zero_iff_full [of "n4 * 4 + n1 + 1" 100] assms show ?thesis by simp
  qed
  have c: "(n100 * 100 + n4 * 4 + n1 + 1) mod 400 = 0 \<longleftrightarrow> n100 = 3 \<and> n4 = 24 \<and> n1 = 3"
  proof -
    have "n100 * 100 + n4 * 4 + n1 + 1 = 400 \<longleftrightarrow> n100 = 3 \<and> n4 = 24 \<and> n1 = 3"
      using assms by arith
    with mod_zero_iff_full [of "n100 * 100 + n4 * 4 + n1 + 1" 400] assms show ?thesis by simp
  qed
  have "is_leap ?y = (?y mod 4 = 0 \<and> (?y mod 100 \<noteq> 0 \<or> ?y mod 400 = 0))"
    by (simp only: is_leap_def)
  also have "\<dots> = (n1 = 3 \<and> (\<not> (n4 = 24 \<and> n1 = 3) \<or> (n100 = 3 \<and> n4 = 24 \<and> n1 = 3)))"
    by (simp only: m4 m100 m400 a b c)
  also have "\<dots> = (n1 = 3 \<and> (n4 \<noteq> 24 \<or> n100 = 3))"
    by blast
  finally show ?thesis .
qed

lemma dby_decomp:
  fixes n400 n100 n4 n1 :: int
  assumes "0 \<le> n100" "n100 \<le> 3" "0 \<le> n4" "n4 \<le> 24" "0 \<le> n1" "n1 \<le> 3"
  shows "days_before_year (n400 * 400 + 1 + n100 * 100 + n4 * 4 + n1)
         = 146097 * n400 + 36524 * n100 + 1461 * n4 + 365 * n1"
proof -
  let ?y1 = "n400 * 400 + n100 * 100 + n4 * 4 + n1"
  have d400: "?y1 div 400 = n400"
    by (rule int_div_pos_eq [where r = "n100 * 100 + n4 * 4 + n1"]) (use assms in simp_all)
  have d100: "?y1 div 100 = 4 * n400 + n100"
    by (rule int_div_pos_eq [where r = "n4 * 4 + n1"]) (use assms in simp_all)
  have d4: "?y1 div 4 = 100 * n400 + 25 * n100 + n4"
    by (rule int_div_pos_eq [where r = "n1"]) (use assms in simp_all)
  have y1: "n400 * 400 + 1 + n100 * 100 + n4 * 4 + n1 - 1 = ?y1"
    by simp
  have "days_before_year (n400 * 400 + 1 + n100 * 100 + n4 * 4 + n1)
        = ?y1 * 365 + ?y1 div 4 - ?y1 div 100 + ?y1 div 400"
    by (simp only: days_before_year_def Let_def y1)
  also have "\<dots> = ?y1 * 365 + (100 * n400 + 25 * n100 + n4) - (4 * n400 + n100) + n400"
    by (simp only: d400 d100 d4)
  also have "\<dots> = 146097 * n400 + 36524 * n100 + 1461 * n4 + 365 * n1"
    by simp
  finally show ?thesis .
qed


lemma month_table:
  fixes m :: int
  assumes "2 \<le> m" "m \<le> 12"
  shows "DAYS_BEFORE_MONTH ! nat m + (if m > 2 \<and> lp then 1 else 0)
           - (DAYS_IN_MONTH ! nat (m - 1) + (if m - 1 = 2 \<and> lp then 1 else 0))
         = DAYS_BEFORE_MONTH ! nat (m - 1) + (if m - 1 > 2 \<and> lp then 1 else 0)"
proof -
  from assms have "m = 2 \<or> m = 3 \<or> m = 4 \<or> m = 5 \<or> m = 6 \<or> m = 7 \<or> m = 8 \<or> m = 9
      \<or> m = 10 \<or> m = 11 \<or> m = 12"
    by arith
  then show ?thesis
    by (elim disjE) (simp_all add: DAYS_BEFORE_MONTH_def DAYS_IN_MONTH_def)
qed

lemma ymd2ord_ord2ymd:
  assumes "1 \<le> n"
  shows "(case ord2ymd n of (y, m, d) \<Rightarrow> ymd2ord y m d) = n"
proof -
  define n0 where "n0 = n - 1"
  define n400 where "n400 = n0 div 146097"
  define r400 where "r400 = n0 mod 146097"
  define n100 where "n100 = r400 div 36524"
  define r100 where "r100 = r400 mod 36524"
  define n4 where "n4 = r100 div 1461"
  define r4 where "r4 = r100 mod 1461"
  define n1 where "n1 = r4 div 365"
  define r1 where "r1 = r4 mod 365"
  define y where "y = n400 * 400 + 1 + n100 * 100 + n4 * 4 + n1"
  define lp where "lp = (n1 = 3 \<and> (n4 \<noteq> 24 \<or> n100 = 3))"
  define m where "m = (r1 + 50) div 32"
  define p where "p = DAYS_BEFORE_MONTH ! nat m + (if m > 2 \<and> lp then 1 else 0)"
  define p' where "p' = p - (DAYS_IN_MONTH ! nat (m - 1) + (if m - 1 = 2 \<and> lp then 1 else 0))"
  have unfold: "ord2ymd n =
      (if n1 = 4 \<or> n100 = 4 then (y - 1, 12, 31)
       else if p > r1 then (y, m - 1, r1 - p' + 1) else (y, m, r1 - p + 1))"
    unfolding ord2ymd_def Let_def p'_def p_def m_def lp_def y_def r1_def n1_def r4_def n4_def
      r100_def n100_def r400_def n400_def n0_def
    by (rule refl)
  have e400: "n0 = 146097 * n400 + r400" and b400: "0 \<le> r400" "r400 < 146097"
    by (simp_all add: n400_def r400_def)
  have e100: "r400 = 36524 * n100 + r100" and b100: "0 \<le> r100" "r100 < 36524"
    by (simp_all add: n100_def r100_def)
  have e4: "r100 = 1461 * n4 + r4" and b4: "0 \<le> r4" "r4 < 1461"
    by (simp_all add: n4_def r4_def)
  have e1: "r4 = 365 * n1 + r1" and b1: "0 \<le> r1" "r1 < 365"
    by (simp_all add: n1_def r1_def)
  have n100_nonneg: "0 \<le> n100" using b400 by (simp add: n100_def)
  have n4_nonneg: "0 \<le> n4" using b100 by (simp add: n4_def)
  have n1_nonneg: "0 \<le> n1" using b4 by (simp add: n1_def)
  have n100_le: "n100 \<le> 4" using e100 b100 b400 by arith
  have n4_le: "n4 \<le> 24" using e4 b4 b100 by arith
  have n1_le: "n1 \<le> 4" using e1 b1 b4 by arith
  have total: "n = 146097 * n400 + 36524 * n100 + 1461 * n4 + 365 * n1 + r1 + 1"
    using e400 e100 e4 e1 by (simp add: n0_def)
  show ?thesis
  proof (cases "n100 = 4")
    case True
    with e100 b100 b400 have "r100 = 0" by arith
    with e4 b4 n4_nonneg have "n4 = 0" "r4 = 0" by arith+
    with e1 b1 n1_nonneg have "n1 = 0" "r1 = 0" by arith+
    have yy: "y - 1 = n400 * 400 + 1 + 3 * 100 + 24 * 4 + 3"
      using True \<open>n4 = 0\<close> \<open>n1 = 0\<close> by (simp add: y_def)
    have "days_before_year (y - 1) = 146097 * n400 + 36524 * 3 + 1461 * 24 + 365 * 3"
      unfolding yy by (rule dby_decomp) simp_all
    moreover have "is_leap (y - 1)"
      unfolding yy by (subst leap_decomp) simp_all
    ultimately have "ymd2ord (y - 1) 12 31 = n"
      using total True \<open>n4 = 0\<close> \<open>n1 = 0\<close> \<open>r1 = 0\<close>
      by (simp add: ymd2ord_def days_before_month_def DAYS_BEFORE_MONTH_def)
    with True show ?thesis by (simp add: unfold)
  next
    case False
    with n100_le have n100_le3: "n100 \<le> 3" by simp
    show ?thesis
    proof (cases "n1 = 4")
      case True
      with e1 b1 b4 have "r1 = 0" by arith
      have "n4 \<noteq> 24"
        using e4 e1 True b100 b1 by arith
      with n4_le have n4_le23: "n4 \<le> 23" by simp
      have yy: "y - 1 = n400 * 400 + 1 + n100 * 100 + n4 * 4 + 3"
        using True by (simp add: y_def)
      have "days_before_year (y - 1) = 146097 * n400 + 36524 * n100 + 1461 * n4 + 365 * 3"
        unfolding yy by (rule dby_decomp) (use n100_nonneg n100_le3 n4_nonneg n4_le in simp_all)
      moreover have "is_leap (y - 1)"
        unfolding yy
        by (subst leap_decomp) (use n100_nonneg n100_le3 n4_nonneg n4_le \<open>n4 \<noteq> 24\<close> in simp_all)
      ultimately have "ymd2ord (y - 1) 12 31 = n"
        using total True \<open>r1 = 0\<close>
        by (simp add: ymd2ord_def days_before_month_def DAYS_BEFORE_MONTH_def)
      with True show ?thesis by (simp add: unfold)
    next
      case n1_ne: False
      with n1_le have n1_le3: "n1 \<le> 3" by simp
      have dby: "days_before_year y = 146097 * n400 + 36524 * n100 + 1461 * n4 + 365 * n1"
        unfolding y_def
        by (rule dby_decomp) (use n100_nonneg n100_le3 n4_nonneg n4_le n1_nonneg n1_le3 in simp_all)
      have leap: "is_leap y = lp"
        unfolding y_def lp_def
        by (rule leap_decomp) (use n100_nonneg n100_le3 n4_nonneg n4_le n1_nonneg n1_le3 in simp_all)
      have m_range: "1 \<le> m" "m \<le> 12"
        using b1 by (simp_all add: m_def)
      have p_eq: "p = days_before_month y m"
        by (simp add: p_def days_before_month_def leap)
      show ?thesis
      proof (cases "p > r1")
        case True
        have "m \<noteq> 1"
        proof
          assume "m = 1"
          then have "p = 0" by (simp add: p_def DAYS_BEFORE_MONTH_def)
          with True b1 show False by simp
        qed
        with m_range have "2 \<le> m" by simp
        from month_table [OF this m_range(2), of lp]
        have "p' = days_before_month y (m - 1)"
          by (simp add: p'_def p_def days_before_month_def leap)
        then have "ymd2ord y (m - 1) (r1 - p' + 1) = n"
          using total dby by (simp add: ymd2ord_def)
        with True False n1_ne show ?thesis by (simp add: unfold)
      next
        case p_le: False
        have "ymd2ord y m (r1 - p + 1) = n"
          using total dby p_eq by (simp add: ymd2ord_def)
        with p_le False n1_ne show ?thesis by (simp add: unfold)
      qed
    qed
  qed
qed

lemma toordinal_sub_days:
  assumes "sub_days dt k = Inr dt'"
  shows "toordinal dt' = toordinal dt - k \<and> tod dt' = tod dt"
proof -
  let ?n = "toordinal dt - k"
  from assms have range: "0 < ?n" "?n \<le> MAXORDINAL"
    by (auto simp: sub_days_def Let_def split: if_splits)
  obtain y m d where ymd: "ord2ymd ?n = (y, m, d)"
    by (cases "ord2ymd ?n") auto
  with assms range have dt': "dt' = \<lparr>year = y, month = m, day = d, tod = tod dt\<rparr>"
    by (simp add: sub_days_def Let_def)
  from range have "1 \<le> ?n" by simp
  from ymd2ord_ord2ymd [OF this] ymd have "ymd2ord y m d = ?n"
    by simp
  with dt' show ?thesis
    by (simp add: toordinal_def)
qed

lemma and_then_Inr:
  "and_then r f = Inr y \<longleftrightarrow> (\<exists>x. r = Inr x \<and> f x = Inr y)"
  by (cases r) (simp_all add: and_then_def)

lemma days_before_year_bounds:
  assumes "1 \<le> y" "y \<le> 9999"
  shows "(y - 1) * 365 \<le> days_before_year y" "days_before_year y \<le> 3651793"
proof -
  define y1 where "y1 = y - 1"
  have r: "0 \<le> y1" "y1 \<le> 9998" using assms by (simp_all add: y1_def)
  have a: "y1 div 100 \<le> y1 div 4" using r by (simp add: zdiv_mono2)
  have b: "0 \<le> y1 div 400" "0 \<le> y1 div 100" using r by simp_all
  have c: "y1 div 4 \<le> 2499" "y1 div 400 \<le> 24" using r by simp_all
  have e: "days_before_year y = y1 * 365 + y1 div 4 - y1 div 100 + y1 div 400"
    by (simp add: days_before_year_def y1_def Let_def)
  show "(y - 1) * 365 \<le> days_before_year y" using a b unfolding e y1_def [symmetric] by simp
  show "days_before_year y \<le> 3651793" using b c r unfolding e by simp
qed

lemma days_before_month_bounds:
  assumes "1 \<le> m" "m \<le> 12"
  shows "0 \<le> days_before_month y m \<and> days_before_month y m \<le> 335"
proof -
  from assms have "m = 1 \<or> m = 2 \<or> m = 3 \<or> m = 4 \<or> m = 5 \<or> m = 6 \<or> m = 7 \<or> m = 8 \<or> m = 9
      \<or> m = 10 \<or> m = 11 \<or> m = 12"
    by arith
  then show ?thesis
    by (elim disjE) (simp_all add: days_before_month_def DAYS_BEFORE_MONTH_def)
qed

lemma days_in_month_le:
  assumes "1 \<le> m" "m \<le> 12"
  shows "days_in_month y m \<le> 31"
proof -
  from assms have "m = 1 \<or> m = 2 \<or> m = 3 \<or> m = 4 \<or> m = 5 \<or> m = 6 \<or> m = 7 \<or> m = 8 \<or> m = 9
      \<or> m = 10 \<or> m = 11 \<or> m = 12"
    by arith
  then show ?thesis
    by (elim disjE) (simp_all add: days_in_month_def DAYS_IN_MONTH_def)
qed

lemma toordinal_bounds:
  assumes "valid_datetime a" "k \<le> year a"  "1 \<le> k"
  shows "(k - 1) * 365 < toordinal a" "toordinal a \<le> 3651793 + 366"
proof -
  from assms(1) have v: "1 \<le> year a" "year a \<le> 9999" "1 \<le> month a" "month a \<le> 12"
    "1 \<le> day a" "day a \<le> days_in_month (year a) (month a)"
    by (simp_all add: valid_datetime_def)
  note dby = days_before_year_bounds [OF v(1,2)]
  note dbm = days_before_month_bounds [OF v(3,4), of "year a"]
  note dim = days_in_month_le [OF v(3,4), of "year a"]
  have "(k - 1) * 365 \<le> (year a - 1) * 365" using assms(2) by simp
  with dby dbm v show "(k - 1) * 365 < toordinal a"
    by (simp add: toordinal_def ymd2ord_def)
  from dby dbm dim v show "toordinal a \<le> 3651793 + 366"
    by (simp add: toordinal_def ymd2ord_def)
qed

lemma sub_days_defined:
  assumes "valid_datetime a" "3 \<le> year a" "k = 365 \<or> k = 730"
  shows "\<exists>b. sub_days a k = Inr b"
proof -
  from toordinal_bounds [OF assms(1), of 3] assms(2)
  have "730 < toordinal a" "toordinal a \<le> 3651793 + 366" by simp_all
  with assms(3) have "0 < toordinal a - k \<and> toordinal a - k \<le> MAXORDINAL"
    by (auto simp: MAXORDINAL_def)
  then show ?thesis
    by (simp add: sub_days_def Let_def split: prod.splits)
qed

lemma ytd_windows_defined:
  assumes "valid_datetime a" "4 \<le> year a"
  shows "\<exists>w. ytd_windows a = Inr w"
proof -
  define y where "y = (if month a \<ge> 4 then year a else year a - 1)"
  define ys where "ys = \<lparr>year = y, month = 4, day = 1, tod = 0\<rparr>"
  from assms have yr: "3 \<le> y" "y \<le> 9999"
    by (simp_all add: y_def valid_datetime_def)
  then have "new_datetime y 4 1 = Inr ys"
    by (simp add: new_datetime_def ys_def days_in_month_def DAYS_IN_MONTH_def)
  then have range: "get_ytd_date_range a = Inr (ys, a)"
    by (cases "4 \<le> month a") (simp_all add: get_ytd_date_range_def and_then_def y_def)
  have vys: "valid_datetime ys" "3 \<le> year ys"
    using yr by (simp_all add: valid_datetime_def ys_def days_in_month_def DAYS_IN_MONTH_def)
  from assms have a3: "3 \<le> year a" by simp
  obtain ps where ps: "sub_days ys 365 = Inr ps"
    using sub_days_defined [OF vys] by auto
  obtain pe where pe: "sub_days a 365 = Inr pe"
    using sub_days_defined [OF assms(1) a3] by auto
  obtain qs where qs: "sub_days ys 730 = Inr qs"
    using sub_days_defined [OF vys] by auto
  obtain qe where qe: "sub_days a 730 = Inr qe"
    using sub_days_defined [OF assms(1) a3] by auto
  show ?thesis
    by (simp add: ytd_windows_def range ps pe qs qe and_then_def)
qed

text \<open>
  C3. For every as-of date for which \<^verbatim>\<open>calculate_ytd_metrics\<close> computes its windows, the start
  and the end of the PYTD window are the start and the end of the YTD window moved back by
  exactly 365 days, and those of the P1YTD window by exactly 730 days, at the same time of
  day: the ordinal day numbers differ by 365 and 730, whatever the fiscal year or a leap day
  in between. The windows are computed for every valid as-of date from year 4 on (before
  that the shift leaves the calendar and Python raises).
\<close>

theorem ytd_windows_shift:
  "(valid_datetime a \<and> 4 \<le> year a \<longrightarrow> (\<exists>w. ytd_windows a = Inr w)) \<and>
   (\<forall>w. ytd_windows a = Inr w \<longrightarrow>
      toordinal (pytd_start w) = toordinal (ytd_start w) - 365 \<and>
      tod (pytd_start w) = tod (ytd_start w) \<and>
      toordinal (pytd_end w) = toordinal (ytd_end w) - 365 \<and>
      tod (pytd_end w) = tod (ytd_end w) \<and>
      toordinal (p1ytd_start w) = toordinal (ytd_start w) - 730 \<and>
      tod (p1ytd_start w) = tod (ytd_start w) \<and>
      toordinal (p1ytd_end w) = toordinal (ytd_end w) - 730 \<and>
      tod (p1ytd_end w) = tod (ytd_end w))"
proof (intro conjI allI impI)
  assume "valid_datetime a \<and> 4 \<le> year a"
  then show "\<exists>w. ytd_windows a = Inr w"
    using ytd_windows_defined by blast
next
  fix w
  assume "ytd_windows a = Inr w"
  then obtain ys ye ps pe qs qe where
    "sub_days ys 365 = Inr ps" "sub_days ye 365 = Inr pe"
    "sub_days ys 730 = Inr qs" "sub_days ye 730 = Inr qe"
    and w: "w = \<lparr>ytd_start = ys, ytd_end = ye, pytd_start = ps, pytd_end = pe,
                 p1ytd_start = qs, p1ytd_end = qe\<rparr>"
    by (auto simp: ytd_windows_def and_then_Inr split: prod.splits)
  then have "toordinal ps = toordinal ys - 365 \<and> tod ps = tod ys"
    "toordinal pe = toordinal ye - 365 \<and> tod pe = tod ye"
    "toordinal qs = toordinal ys - 730 \<and> tod qs = tod ys"
    "toordinal qe = toordinal ye - 730 \<and> tod qe = tod ye"
    by (simp_all add: toordinal_sub_days)
  then show "toordinal (pytd_start w) = toordinal (ytd_start w) - 365"
    "tod (pytd_start w) = tod (ytd_start w)"
    "toordinal (pytd_end w) = toordinal (ytd_end w) - 365"
    "tod (pytd_end w) = tod (ytd_end w)"
    "toordinal (p1ytd_start w) = toordinal (ytd_start w) - 730"
    "tod (p1ytd_start w) = tod (ytd_start w)"
    "toordinal (p1ytd_end w) = toordinal (ytd_end w) - 730"
    "tod (p1ytd_end w) = tod (ytd_end w)"
    by (simp_all add: w)
qed

theorem ytd_windows_shift_witness:
  "valid_datetime \<lparr>year = 2024, month = 4, day = 10, tod = 0\<rparr> \<and>
   ytd_windows \<lparr>year = 2024, month = 4, day = 10, tod = 0\<rparr>
     = Inr \<lparr>ytd_start = \<lparr>year = 2024, month = 4, day = 1, tod = 0\<rparr>,
            ytd_end = \<lparr>year = 2024, month = 4, day = 10, tod = 0\<rparr>,
            pytd_start = \<lparr>year = 2023, month = 4, day = 2, tod = 0\<rparr>,
            pytd_end = \<lparr>year = 2023, month = 4, day = 11, tod = 0\<rparr>,
            p1ytd_start = \<lparr>year = 2022, month = 4, day = 2, tod = 0\<rparr>,
            p1ytd_end = \<lparr>year = 2022, month = 4, day = 11, tod = 0\<rparr>\<rparr> \<and>
   toordinal \<lparr>year = 2023, month = 4, day = 2, tod = 0\<rparr>
     = toordinal \<lparr>year = 2024, month = 4, day = 1, tod = 0\<rparr> - 365 \<and>
   toordinal \<lparr>year = 2022, month = 4, day = 11, tod = 0\<rparr>
     = toordinal \<lparr>year = 2024, month = 4, day = 10, tod = 0\<rparr> - 730"
proof -
  let ?a = "\<lparr>year = 2024, month = 4, day = 10, tod = 0\<rparr>"
  have v: "valid_datetime ?a"
    by (simp add: valid_datetime_def days_in_month_def DAYS_IN_MONTH_def)
  have w: "ytd_windows ?a
     = Inr \<lparr>ytd_start = \<lparr>year = 2024, month = 4, day = 1, tod = 0\<rparr>,
            ytd_end = \<lparr>year = 2024, month = 4, day = 10, tod = 0\<rparr>,
            pytd_start = \<lparr>year = 2023, month = 4, day = 2, tod = 0\<rparr>,
            pytd_end = \<lparr>year = 2023, month = 4, day = 11, tod = 0\<rparr>,
            p1ytd_start = \<lparr>year = 2022, month = 4, day = 2, tod = 0\<rparr>,
            p1ytd_end = \<lparr>year = 2022, month = 4, day = 11, tod = 0\<rparr>\<rparr>"
    by code_simp
  from ytd_windows_shift [of ?a] v w show ?thesis
    by simp
qed


section \<open>Properties of the aggregation\<close>

subsection \<open>The arithmetic of the columns\<close>

lemma wrap_shift:
  fixes a b h m :: int
  shows "((a + h) mod m - h + b + h) mod m = (a + b + h) mod m"
proof -
  have "((a + h) mod m - h + b + h) mod m = ((a + h) mod m + b) mod m"
    by (simp add: algebra_simps)
  also have "\<dots> = (a + h + b) mod m"
    by (rule mod_add_left_eq)
  also have "\<dots> = (a + b + h) mod m"
    by (simp add: algebra_simps)
  finally show ?thesis .
qed

lemma wrap64_add_left: "wrap64 (wrap64 a + b) = wrap64 (a + b)"
  unfolding wrap64_def by (simp only: wrap_shift)

lemma wrap64_add_right: "wrap64 (a + wrap64 b) = wrap64 (a + b)"
  using wrap64_add_left [of b a] by (simp add: add.commute)

lemma wrap64_in_range:
  assumes "- (2 ^ 63) \<le> x" "x < 2 ^ 63"
  shows "wrap64 x = x"
proof -
  from assms have "0 \<le> x + 2 ^ 63" "x + 2 ^ 63 < 2 ^ 64" by simp_all
  then have "(x + 2 ^ 63) mod 2 ^ 64 = x + 2 ^ 63" by simp
  then show ?thesis by (simp add: wrap64_def)
qed

lemma wrap64_zero: "wrap64 0 = 0"
  by (simp add: wrap64_def)

lemma fold_wrap64:
  "fold (\<lambda>q s. wrap64 (s + q)) qs (wrap64 a) = wrap64 (a + sum_list qs)"
proof (induction qs arbitrary: a)
  case Nil
  then show ?case by simp
next
  case (Cons q qs)
  have "fold (\<lambda>q s. wrap64 (s + q)) (q # qs) (wrap64 a)
      = fold (\<lambda>q s. wrap64 (s + q)) qs (wrap64 (a + q))"
    by (simp add: wrap64_add_left)
  also have "\<dots> = wrap64 (a + q + sum_list qs)"
    by (rule Cons.IH)
  finally show ?case by (simp add: add.assoc)
qed

text \<open>
  \<open>f64_exponent\<close> is the binary exponent of a number other than zero: the number lies
  between the power of two of its exponent and the next power of two.
\<close>

lemma f64_exponent_large:
  fixes x :: rat
  assumes "1 \<le> \<bar>x\<bar>"
  shows "0 \<le> f64_exponent x \<and> 2 ^ nat (f64_exponent x) \<le> \<bar>x\<bar> \<and> \<bar>x\<bar> < 2 ^ nat (f64_exponent x + 1)"
proof -
  define n where "n = \<lfloor>\<bar>x\<bar>\<rfloor>"
  from assms have n: "1 \<le> n" by (simp add: n_def le_floor_iff)
  then have pos: "0 < n" by simp
  from bitlen_bounds [OF pos] have b: "2 ^ nat (bitlen n - 1) \<le> n" "n < 2 ^ nat (bitlen n)"
    by simp_all
  have bl: "1 \<le> bitlen n"
  proof (rule ccontr)
    assume "\<not> 1 \<le> bitlen n"
    then have "nat (bitlen n) = 0" by simp
    with b(2) pos show False by simp
  qed
  have e: "f64_exponent x = bitlen n - 1"
    using assms by (simp add: f64_exponent_def n_def)
  have "(of_int (2 ^ nat (bitlen n - 1)) :: rat) \<le> of_int n"
    using b(1) by (simp only: of_int_le_iff)
  also have "\<dots> \<le> \<bar>x\<bar>" by (simp add: n_def)
  finally have lo: "2 ^ nat (bitlen n - 1) \<le> \<bar>x\<bar>" by simp
  from b(2) have "n + 1 \<le> 2 ^ nat (bitlen n)" by simp
  then have "(of_int (n + 1) :: rat) \<le> of_int (2 ^ nat (bitlen n))"
    by (simp only: of_int_le_iff)
  moreover have "\<bar>x\<bar> < of_int (n + 1)"
    unfolding n_def by linarith
  ultimately have hi: "\<bar>x\<bar> < 2 ^ nat (bitlen n)" by simp
  from bl lo hi show ?thesis unfolding e by simp
qed

lemma f64_exponent_small:
  fixes x :: rat
  assumes "x \<noteq> 0" "\<bar>x\<bar> < 1"
  shows "f64_exponent x < 0 \<and> 1 / 2 ^ nat (- f64_exponent x) \<le> \<bar>x\<bar> \<and>
         \<bar>x\<bar> < 2 / 2 ^ nat (- f64_exponent x)"
proof -
  define y where "y = 1 / \<bar>x\<bar>"
  define m where "m = \<lceil>y\<rceil> - 1"
  from assms have ax: "0 < \<bar>x\<bar>" by simp
  with assms(2) have y1: "1 < y" by (simp add: y_def)
  then have "2 \<le> \<lceil>y\<rceil>" by (simp add: le_ceiling_iff)
  then have pos: "0 < m" by (simp add: m_def)
  from bitlen_bounds [OF pos] have b: "2 ^ nat (bitlen m - 1) \<le> m" "m < 2 ^ nat (bitlen m)"
    by simp_all
  have bl: "1 \<le> bitlen m"
  proof (rule ccontr)
    assume "\<not> 1 \<le> bitlen m"
    then have "nat (bitlen m) = 0" by simp
    with b(2) pos show False by simp
  qed
  have e: "f64_exponent x = - bitlen m"
    using assms by (simp add: f64_exponent_def m_def y_def)
  have my: "of_int m < y" "y \<le> of_int m + 1"
    unfolding m_def by linarith+
  from b(2) have "m + 1 \<le> 2 ^ nat (bitlen m)" by simp
  then have "(of_int (m + 1) :: rat) \<le> of_int (2 ^ nat (bitlen m))"
    by (simp only: of_int_le_iff)
  with my(2) have yhi: "y \<le> 2 ^ nat (bitlen m)" by simp
  have "(of_int (2 ^ nat (bitlen m - 1)) :: rat) \<le> of_int m"
    using b(1) by (simp only: of_int_le_iff)
  then have "(2::rat) ^ nat (bitlen m - 1) \<le> of_int m"
    by simp
  then have ylo: "2 ^ nat (bitlen m - 1) < y"
    using my(1) by (rule le_less_trans)
  have xy: "\<bar>x\<bar> = 1 / y" using ax by (simp add: y_def)
  have y0: "0 < y" using y1 by simp
  have p0: "(0::rat) < 2 ^ nat (bitlen m)" by simp
  have lo: "1 / 2 ^ nat (bitlen m) \<le> \<bar>x\<bar>"
    unfolding xy using yhi y0 p0 by (simp add: frac_le)
  have pw: "(2::rat) ^ nat (bitlen m) = 2 * 2 ^ nat (bitlen m - 1)"
  proof -
    from bl have "nat (bitlen m) = Suc (nat (bitlen m - 1))" by simp
    then show ?thesis by (simp only: power_Suc)
  qed
  have "1 / y < 1 / 2 ^ nat (bitlen m - 1)"
    using ylo by (simp add: frac_less2)
  then have hi: "\<bar>x\<bar> < 2 / 2 ^ nat (bitlen m)"
    unfolding xy pw by simp
  from bl lo hi show ?thesis unfolding e by simp
qed

lemma round_half_even_of_int: "round_half_even (of_int n) = n"
  by (simp add: round_half_even_def)

lemma round_f64_of_int:
  assumes "\<bar>n\<bar> < 2 ^ 53"
  shows "round_f64 (of_int n) = of_int n"
proof (cases "n = 0")
  case True
  then show ?thesis by (simp add: round_f64_def)
next
  case False
  then have pos: "0 < \<bar>n\<bar>" by simp
  have one: "1 \<le> \<bar>of_int n :: rat\<bar>"
    using False by (metis abs_ge_zero of_int_abs of_int_1_le_iff pos zless_imp_add1_zle add_0)
  have fl: "\<lfloor>\<bar>of_int n :: rat\<bar>\<rfloor> = \<bar>n\<bar>"
    by (metis floor_of_int of_int_abs)
  have e: "f64_exponent (of_int n) = bitlen \<bar>n\<bar> - 1"
    using one by (simp add: f64_exponent_def fl)
  from bitlen_bounds [OF pos] have "2 ^ nat (bitlen \<bar>n\<bar> - 1) \<le> \<bar>n\<bar>" by simp
  with assms have "(2::int) ^ nat (bitlen \<bar>n\<bar> - 1) < 2 ^ 53" by simp
  then have "nat (bitlen \<bar>n\<bar> - 1) < 53"
    using power_less_imp_less_exp [of "2::int" "nat (bitlen \<bar>n\<bar> - 1)" 53] by simp
  then have b: "bitlen \<bar>n\<bar> - 1 - 52 \<le> 0" by simp
  define qe where "qe = max (bitlen \<bar>n\<bar> - 1 - 52) (- 1074)"
  from b have qe: "qe \<le> 0" by (simp add: qe_def)
  have r: "round_f64 (of_int n)
      = (if 0 \<le> qe then of_int (round_half_even (of_int n / 2 ^ nat qe)) * 2 ^ nat qe
         else of_int (round_half_even (of_int n * 2 ^ nat (- qe))) / 2 ^ nat (- qe))"
    using False by (simp add: round_f64_def e qe_def Let_def)
  show ?thesis
  proof (cases "qe = 0")
    case True
    then show ?thesis by (simp add: r round_half_even_of_int)
  next
    case ne: False
    with qe have neg: "\<not> 0 \<le> qe" by simp
    have "(of_int n :: rat) * 2 ^ nat (- qe) = of_int (n * 2 ^ nat (- qe))"
      by simp
    then have "round_half_even (of_int n * 2 ^ nat (- qe)) = n * 2 ^ nat (- qe)"
      by (metis round_half_even_of_int)
    with neg show ?thesis by (simp add: r)
  qed
qed

lemma kahan_step_exact:
  assumes "\<bar>s\<bar> + \<bar>v\<bar> < 2 ^ 53"
  shows "kahan_step (of_int s, 0) (of_int v) = (of_int (s + v), 0)"
proof -
  from assms have v: "\<bar>v\<bar> < 2 ^ 53" and sv: "\<bar>s + v\<bar> < 2 ^ 53"
    by linarith+
  have y: "f64_sub (of_int v) 0 = of_int v"
    using round_f64_of_int [OF v] by (simp add: f64_sub_def)
  have t: "f64_add (of_int s) (of_int v) = of_int (s + v)"
    using round_f64_of_int [OF sv] by (simp add: f64_add_def)
  have d: "f64_sub (of_int (s + v)) (of_int s) = of_int v"
    using round_f64_of_int [OF v] by (simp add: f64_sub_def)
  have c: "f64_sub (of_int v) (of_int v) = 0"
    by (simp add: f64_sub_def round_f64_def)
  show ?thesis
    by (simp only: kahan_step_def prod.case Let_def y t d c)
qed

lemma fold_kahan_exact:
  assumes "\<forall>v \<in> set vs. v \<in> \<int>" "of_int \<bar>s\<bar> + sum_list (map abs vs) < (2 ^ 53 :: rat)"
  shows "fold (\<lambda>v st. kahan_step st v) vs (of_int s, 0) = (of_int s + sum_list vs, 0)"
  using assms
proof (induction vs arbitrary: s)
  case Nil
  then show ?case by simp
next
  case (Cons v vs)
  from Cons.prems(1) obtain n where n: "v = of_int n"
    by (auto elim: Ints_cases)
  have nn: "0 \<le> sum_list (map abs vs)"
    by (rule sum_list_nonneg) auto
  from Cons.prems(2) n have bound: "of_int (\<bar>s\<bar> + \<bar>n\<bar>) + sum_list (map abs vs) < (2 ^ 53 :: rat)"
    by simp
  with nn have "(of_int (\<bar>s\<bar> + \<bar>n\<bar>) :: rat) < 2 ^ 53"
    by linarith
  then have "(of_int (\<bar>s\<bar> + \<bar>n\<bar>) :: rat) < of_int (2 ^ 53)"
    by simp
  then have step: "\<bar>s\<bar> + \<bar>n\<bar> < 2 ^ 53"
    by (simp only: of_int_less_iff)
  have "\<bar>s + n\<bar> \<le> \<bar>s\<bar> + \<bar>n\<bar>"
    by (rule abs_triangle_ineq)
  then have "(of_int \<bar>s + n\<bar> :: rat) \<le> of_int (\<bar>s\<bar> + \<bar>n\<bar>)"
    by (simp only: of_int_le_iff)
  with bound have rest: "of_int \<bar>s + n\<bar> + sum_list (map abs vs) < (2 ^ 53 :: rat)"
    by linarith
  have "fold (\<lambda>v st. kahan_step st v) (v # vs) (of_int s, 0)
      = fold (\<lambda>v st. kahan_step st v) vs (of_int (s + n), 0)"
    by (simp add: n kahan_step_exact [OF step])
  also have "\<dots> = (of_int (s + n) + sum_list vs, 0)"
    using Cons.prems(1) rest by (intro Cons.IH) simp_all
  finally show ?case by (simp add: n add.assoc)
qed

lemma f64_sum_exact:
  assumes "\<forall>v \<in> set vs. v \<in> \<int>" "sum_list (map abs vs) < 2 ^ 53"
  shows "f64_sum vs = sum_list vs"
  using fold_kahan_exact [of vs 0] assms by (simp add: f64_sum_def)

lemma f64_sum_Nil: "f64_sum [] = 0"
  by (simp add: f64_sum_def)

subsection \<open>Grouped sums\<close>

lemma add_to_group_keys:
  "fst ` set (add_to_group k v q gs) = insert k (fst ` set gs)"
  by (induction k v q gs rule: add_to_group.induct) auto

lemma add_to_group_sorted:
  "sorted_wrt (<) (map fst gs) \<Longrightarrow> sorted_wrt (<) (map fst (add_to_group k v q gs))"
proof (induction k v q gs rule: add_to_group.induct)
  case (1 k v q)
  then show ?case by simp
next
  case (2 k v q k' st gs)
  show ?case
  proof (cases "k = k'")
    case True
    with 2 show ?thesis by simp
  next
    case ne: False
    show ?thesis
    proof (cases "k < k'")
      case True
      with 2 ne show ?thesis by auto
    next
      case False
      with ne have lt: "k' < k" by simp
      from 2 ne False have IH: "sorted_wrt (<) (map fst (add_to_group k v q gs))"
        by simp
      have "\<forall>x \<in> fst ` set (add_to_group k v q gs). k' < x"
        using 2(2) lt by (auto simp: add_to_group_keys)
      with IH ne False show ?thesis by auto
    qed
  qed
qed

lemma state_of_absent:
  "p \<notin> fst ` set gs \<Longrightarrow> state_of gs p = ((0, 0), 0)"
  by (force simp: state_of_def split: option.splits dest: map_of_SomeD)

lemma state_of_add_to_group:
  "sorted_wrt (<) (map fst gs) \<Longrightarrow>
   state_of (add_to_group k v q gs) p
     = (if p = k then group_step (state_of gs k) v q else state_of gs p)"
proof (induction k v q gs arbitrary: p rule: add_to_group.induct)
  case (1 k v q)
  then show ?case by (simp add: state_of_def)
next
  case (2 k v q k' st gs)
  show ?case
  proof (cases "k = k'")
    case True
    then show ?thesis by (simp add: state_of_def)
  next
    case ne: False
    show ?thesis
    proof (cases "k < k'")
      case True
      with 2(2) have "k \<notin> fst ` set ((k', st) # gs)" by auto
      from state_of_absent [OF this] True ne show ?thesis
        by (simp add: state_of_def)
    next
      case False
      from 2 ne False
      have IH: "state_of (add_to_group k v q gs) x
          = (if x = k then group_step (state_of gs k) v q else state_of gs x)" for x
        by simp
      have tail: "state_of ((k', st) # xs) x = (if x = k' then st else state_of xs x)" for xs x
        by (simp add: state_of_def)
      from ne False show ?thesis
        by (simp add: tail IH)
    qed
  qed
qed

lemma fold_state_of:
  "sorted_wrt (<) (map fst acc) \<Longrightarrow>
   state_of (fold (\<lambda>r. add_to_group (key r) (amount r) (qty r)) rows acc) p
     = fold (\<lambda>r st. group_step st (amount r) (qty r)) (filter (\<lambda>r. key r = p) rows)
         (state_of acc p)"
  by (induction rows arbitrary: acc) (simp_all add: add_to_group_sorted state_of_add_to_group)

lemma fold_add_keys:
  "fst ` set (fold (\<lambda>r. add_to_group (key r) (amount r) (qty r)) rows acc)
     = key ` set rows \<union> fst ` set acc"
  by (induction rows arbitrary: acc) (auto simp: add_to_group_keys)

lemma fold_add_sorted:
  "sorted_wrt (<) (map fst acc) \<Longrightarrow>
   sorted_wrt (<) (map fst (fold (\<lambda>r. add_to_group (key r) (amount r) (qty r)) rows acc))"
  by (induction rows arbitrary: acc) (simp_all add: add_to_group_sorted)

lemma fold_group_step:
  "fold (\<lambda>r st. group_step st (amount r) (qty r)) rs st
     = (fold (\<lambda>v s. kahan_step s v) (map amount rs) (fst st),
        fold (\<lambda>q s. wrap64 (s + q)) (map qty rs) (snd st))"
  by (induction rs arbitrary: st) (simp_all add: group_step_def)

lemma groupby_sum_key_list:
  "map fst (groupby_sum key amount qty rows)
     = map fst (fold (\<lambda>r. add_to_group (key r) (amount r) (qty r)) rows [])"
  by (simp add: groupby_sum_def comp_def case_prod_beta)

lemma groupby_sum_keys:
  "fst ` set (groupby_sum key amount qty rows) = key ` set rows"
proof -
  have "fst ` set (groupby_sum key amount qty rows)
      = set (map fst (groupby_sum key amount qty rows))"
    by simp
  also have "\<dots> = fst ` set (fold (\<lambda>r. add_to_group (key r) (amount r) (qty r)) rows [])"
    unfolding groupby_sum_key_list by simp
  finally show ?thesis by (simp add: fold_add_keys)
qed

lemma groupby_sum_sorted:
  "sorted_wrt (<) (map fst (groupby_sum key amount qty rows))"
  by (simp add: groupby_sum_key_list fold_add_sorted)

lemma groupby_sum_distinct:
  "distinct (map fst (groupby_sum key amount qty rows))"
  using groupby_sum_sorted [of key amount qty rows] strict_sorted_iff by blast

lemma map_of_groupby_sum:
  "map_of (groupby_sum key amount qty rows) p
     = (if p \<in> key ` set rows
        then Some (f64_sum (map amount (filter (\<lambda>r. key r = p) rows)),
                   wrap64 (sum_list (map qty (filter (\<lambda>r. key r = p) rows))))
        else None)"
proof -
  let ?accs = "fold (\<lambda>r. add_to_group (key r) (amount r) (qty r)) rows []"
  let ?group = "filter (\<lambda>r. key r = p) rows"
  have fin: "groupby_sum key amount qty rows
      = map (\<lambda>(k, st). (k, fst (fst st), snd st)) ?accs"
    by (simp add: groupby_sum_def case_prod_beta)
  have m: "map_of (groupby_sum key amount qty rows) p
      = map_option (\<lambda>st. (fst (fst st), snd st)) (map_of ?accs p)"
    unfolding fin by (simp add: map_of_map)
  have keys: "fst ` set ?accs = key ` set rows"
    by (simp add: fold_add_keys)
  show ?thesis
  proof (cases "p \<in> key ` set rows")
    case False
    with keys have "map_of ?accs p = None"
      by (simp add: map_of_eq_None_iff)
    with False m show ?thesis by simp
  next
    case True
    with keys have "map_of ?accs p \<noteq> None"
      by (simp add: map_of_eq_None_iff)
    then obtain st where st: "map_of ?accs p = Some st"
      by blast
    then have "st = state_of ?accs p"
      by (simp add: state_of_def)
    also have "\<dots> = fold (\<lambda>r st. group_step st (amount r) (qty r)) ?group (state_of [] p)"
      by (rule fold_state_of) simp
    also have "\<dots> = (fold (\<lambda>v s. kahan_step s v) (map amount ?group) (0, 0),
        fold (\<lambda>q s. wrap64 (s + q)) (map qty ?group) (wrap64 0))"
      by (simp add: fold_group_step state_of_def wrap64_zero)
    finally have "st = (fold (\<lambda>v s. kahan_step s v) (map amount ?group) (0, 0),
        wrap64 (sum_list (map qty ?group)))"
      by (simp only: fold_wrap64 add_0)
    with True m st show ?thesis
      by (simp add: f64_sum_def)
  qed
qed

lemma groupby_sum_row:
  "(p, v, q) \<in> set (groupby_sum key amount qty rows) \<longleftrightarrow>
   p \<in> key ` set rows \<and> v = f64_sum (map amount (filter (\<lambda>r. key r = p) rows)) \<and>
   q = wrap64 (sum_list (map qty (filter (\<lambda>r. key r = p) rows)))"
proof -
  have "(p, v, q) \<in> set (groupby_sum key amount qty rows)
      \<longleftrightarrow> map_of (groupby_sum key amount qty rows) p = Some (v, q)"
    using groupby_sum_distinct [of key amount qty rows] by simp
  then show ?thesis
    by (auto simp: map_of_groupby_sum)
qed

lemma floor_numeral_fraction:
  "\<lfloor>(numeral a :: rat) / numeral b\<rfloor> = numeral a div numeral b"
  using floor_divide_of_int_eq [of "numeral a" "numeral b", where ?'a = rat] by simp

lemma floor_neg_numeral_fraction:
  "\<lfloor>- ((numeral a :: rat) / numeral b)\<rfloor> = - numeral a div numeral b"
  using floor_divide_of_int_eq [of "- numeral a" "numeral b", where ?'a = rat] by simp

lemma ceiling_numeral_fraction:
  "\<lceil>(numeral a :: rat) / numeral b\<rceil> = - (- numeral a div numeral b)"
  using floor_divide_of_int_eq [of "- numeral a" "numeral b", where ?'a = rat]
  by (simp add: ceiling_def)

lemmas f64_eval = f64_add_def f64_sub_def round_f64_def round_half_even_def f64_exponent_def
  compute_bitlen Let_def floor_numeral_fraction floor_neg_numeral_fraction
  ceiling_numeral_fraction

lemmas groupby_eval = period_summary_def groupby_sum_def in_period_def dt_le_def dt_key_def
  group_step_def kahan_step_def wrap64_def

lemma period_records_filter:
  "filter (\<lambda>r. sales_row.product_name r = p) (filter (in_period s e) df) = period_records df s e p"
  by (simp add: period_records_def in_period_def conj_commute)

lemma period_records_append:
  "period_records (A @ B) s e p = period_records A s e p @ period_records B s e p"
  by (simp add: period_records_def)

lemma map_of_period_summary:
  "map_of (period_summary df s e) p
     = (if period_records df s e p = [] then None
        else Some (f64_sum (map sales_amount (period_records df s e p)),
                   wrap64 (sum_list (map quantity (period_records df s e p)))))"
proof -
  have mem: "p \<in> sales_row.product_name ` set (filter (in_period s e) df)
      \<longleftrightarrow> period_records df s e p \<noteq> []"
    by (auto simp: period_records_def in_period_def filter_empty_conv)
  have "map_of (period_summary df s e) p
      = (if p \<in> sales_row.product_name ` set (filter (in_period s e) df)
         then Some (f64_sum (map sales_amount (period_records df s e p)),
                    wrap64 (sum_list (map quantity (period_records df s e p))))
         else None)"
    unfolding period_summary_def map_of_groupby_sum period_records_filter by (rule refl)
  then show ?thesis
    by (simp only: mem) simp
qed

lemma summary_sales_period:
  "summary_sales (period_summary df s e) p = f64_sum (map sales_amount (period_records df s e p))"
  by (simp add: summary_sales_def map_of_period_summary f64_sum_Nil)

lemma summary_quantity_period:
  "summary_quantity (period_summary df s e) p
     = wrap64 (sum_list (map quantity (period_records df s e p)))"
  by (simp add: summary_quantity_def map_of_period_summary wrap64_zero)

lemma period_summary_distinct:
  "distinct (map fst (period_summary df s e))"
  by (simp add: period_summary_def groupby_sum_distinct)

lemma period_summary_keys:
  "fst ` set (period_summary df s e)
     = sales_row.product_name ` {r \<in> set df. dt_le s (date r) \<and> dt_le (date r) e}"
  by (simp add: period_summary_def groupby_sum_keys in_period_def)

lemma amounts_exact:
  assumes "\<forall>r \<in> set rs. sales_amount r \<in> \<int>"
    and "sum_list (map (\<lambda>r. \<bar>sales_amount r\<bar>) rs) < 2 ^ 53"
  shows "f64_sum (map sales_amount rs) = sum_list (map sales_amount rs)"
proof -
  have "map abs (map sales_amount rs) = map (\<lambda>r. \<bar>sales_amount r\<bar>) rs"
    by (simp add: comp_def)
  with assms(2) have "sum_list (map abs (map sales_amount rs)) < 2 ^ 53"
    by (simp only:)
  moreover from assms(1) have "\<forall>v \<in> set (map sales_amount rs). v \<in> \<int>"
    by simp
  ultimately show ?thesis
    by (intro f64_sum_exact)
qed

text \<open>
  C6, amended. The summary of a period keeps exactly the records whose date lies between the
  start and the end of the window, both bounds included: its products are the products of
  those records, with one row per product, and when no record falls in the window the
  summary is the empty table. The totals of a row are sums in the arithmetic of the
  columns. The quantity is the sum of the quantities of the product's records in the
  window reduced into the 64-bit range, which is the sum itself when that lies in the
  range. The sales total is the floating-point sum of the amounts of those records, taken
  in the order of the table, as long as no number computed on the way overflows; it is the
  exact sum when the amounts are whole numbers whose absolute values add up to less than
  \<open>2 ^ 53\<close>.
\<close>

theorem period_summary_rows:
  "fst ` set (period_summary df s e)
     = sales_row.product_name ` {r \<in> set df. dt_le s (date r) \<and> dt_le (date r) e} \<and>
   distinct (map fst (period_summary df s e)) \<and>
   (\<forall>p v q. (p, v, q) \<in> set (period_summary df s e) \<longrightarrow>
      q = wrap64 (sum_list (map quantity (period_records df s e p))) \<and>
      (- (2 ^ 63) \<le> sum_list (map quantity (period_records df s e p)) \<and>
       sum_list (map quantity (period_records df s e p)) < 2 ^ 63 \<longrightarrow>
         q = sum_list (map quantity (period_records df s e p))) \<and>
      (f64_sum_finite (map sales_amount (period_records df s e p)) \<longrightarrow>
         v = f64_sum (map sales_amount (period_records df s e p))) \<and>
      ((\<forall>r \<in> set (period_records df s e p). sales_amount r \<in> \<int>) \<and>
       sum_list (map (\<lambda>r. \<bar>sales_amount r\<bar>) (period_records df s e p)) < 2 ^ 53 \<longrightarrow>
         v = sum_list (map sales_amount (period_records df s e p)))) \<and>
   ((\<forall>r \<in> set df. \<not> (dt_le s (date r) \<and> dt_le (date r) e)) \<longrightarrow> period_summary df s e = [])"
proof (intro conjI allI impI)
  show "fst ` set (period_summary df s e)
     = sales_row.product_name ` {r \<in> set df. dt_le s (date r) \<and> dt_le (date r) e}"
    by (rule period_summary_keys)
  show "distinct (map fst (period_summary df s e))"
    by (rule period_summary_distinct)
next
  fix p v q
  assume "(p, v, q) \<in> set (period_summary df s e)"
  with period_summary_distinct [of df s e]
  have "map_of (period_summary df s e) p = Some (v, q)"
    by simp
  then have v: "v = f64_sum (map sales_amount (period_records df s e p))"
    and q: "q = wrap64 (sum_list (map quantity (period_records df s e p)))"
    by (simp_all add: map_of_period_summary split: if_splits)
  show "q = wrap64 (sum_list (map quantity (period_records df s e p)))"
    by (rule q)
  show "v = f64_sum (map sales_amount (period_records df s e p))"
    by (rule v)
  show "q = sum_list (map quantity (period_records df s e p))"
    if "- (2 ^ 63) \<le> sum_list (map quantity (period_records df s e p)) \<and>
       sum_list (map quantity (period_records df s e p)) < 2 ^ 63"
    using that q wrap64_in_range by simp
  show "v = sum_list (map sales_amount (period_records df s e p))"
    if "(\<forall>r \<in> set (period_records df s e p). sales_amount r \<in> \<int>) \<and>
       sum_list (map (\<lambda>r. \<bar>sales_amount r\<bar>) (period_records df s e p)) < 2 ^ 53"
    using that v amounts_exact [of "period_records df s e p"] by blast
next
  assume "\<forall>r \<in> set df. \<not> (dt_le s (date r) \<and> dt_le (date r) e)"
  then have "filter (in_period s e) df = []"
    by (auto simp: filter_empty_conv in_period_def)
  then show "period_summary df s e = []"
    by (simp add: period_summary_def groupby_sum_def)
qed

theorem period_summary_rows_witness:
  "period_summary
     [\<lparr>date = \<lparr>year = 2023, month = 4, day = 1, tod = 0\<rparr>, product_name = ''A'',
        sales_amount = 10, quantity = 1, year_month = None, fiscal_year = None\<rparr>,
      \<lparr>date = \<lparr>year = 2023, month = 4, day = 10, tod = 0\<rparr>, product_name = ''A'',
        sales_amount = 20, quantity = 2, year_month = None, fiscal_year = None\<rparr>,
      \<lparr>date = \<lparr>year = 2023, month = 4, day = 11, tod = 0\<rparr>, product_name = ''A'',
        sales_amount = 5, quantity = 1, year_month = None, fiscal_year = None\<rparr>,
      \<lparr>date = \<lparr>year = 2023, month = 3, day = 31, tod = 0\<rparr>, product_name = ''B'',
        sales_amount = 7, quantity = 1, year_month = None, fiscal_year = None\<rparr>]
     \<lparr>year = 2023, month = 4, day = 1, tod = 0\<rparr> \<lparr>year = 2023, month = 4, day = 10, tod = 0\<rparr>
   = [(''A'', 30, 3)] \<and>
   period_records
     [\<lparr>date = \<lparr>year = 2023, month = 4, day = 1, tod = 0\<rparr>, product_name = ''A'',
        sales_amount = 10, quantity = 1, year_month = None, fiscal_year = None\<rparr>,
      \<lparr>date = \<lparr>year = 2023, month = 4, day = 10, tod = 0\<rparr>, product_name = ''A'',
        sales_amount = 20, quantity = 2, year_month = None, fiscal_year = None\<rparr>,
      \<lparr>date = \<lparr>year = 2023, month = 4, day = 11, tod = 0\<rparr>, product_name = ''A'',
        sales_amount = 5, quantity = 1, year_month = None, fiscal_year = None\<rparr>,
      \<lparr>date = \<lparr>year = 2023, month = 3, day = 31, tod = 0\<rparr>, product_name = ''B'',
        sales_amount = 7, quantity = 1, year_month = None, fiscal_year = None\<rparr>]
     \<lparr>year = 2023, month = 4, day = 1, tod = 0\<rparr> \<lparr>year = 2023, month = 4, day = 10, tod = 0\<rparr>
     ''A''
   = [\<lparr>date = \<lparr>year = 2023, month = 4, day = 1, tod = 0\<rparr>, product_name = ''A'',
        sales_amount = 10, quantity = 1, year_month = None, fiscal_year = None\<rparr>,
      \<lparr>date = \<lparr>year = 2023, month = 4, day = 10, tod = 0\<rparr>, product_name = ''A'',
        sales_amount = 20, quantity = 2, year_month = None, fiscal_year = None\<rparr>] \<and>
   f64_sum_finite [10, 20] \<and> f64_sum [10, 20] = 30 \<and> wrap64 3 = 3 \<and>
   period_summary
     [\<lparr>date = \<lparr>year = 2023, month = 3, day = 31, tod = 0\<rparr>, product_name = ''B'',
        sales_amount = 7, quantity = 1, year_month = None, fiscal_year = None\<rparr>]
     \<lparr>year = 2023, month = 4, day = 1, tod = 0\<rparr> \<lparr>year = 2023, month = 4, day = 10, tod = 0\<rparr>
   = []"
proof -
  let ?s = "\<lparr>year = 2023, month = 4, day = 1, tod = 0\<rparr>"
  let ?e = "\<lparr>year = 2023, month = 4, day = 10, tod = 0\<rparr>"
  let ?r1 = "\<lparr>date = ?s, product_name = ''A'',
        sales_amount = 10, quantity = 1, year_month = None, fiscal_year = None\<rparr>"
  let ?r2 = "\<lparr>date = ?e, product_name = ''A'',
        sales_amount = 20, quantity = 2, year_month = None, fiscal_year = None\<rparr>"
  let ?b = "\<lparr>date = \<lparr>year = 2023, month = 3, day = 31, tod = 0\<rparr>, product_name = ''B'',
        sales_amount = 7, quantity = 1, year_month = None, fiscal_year = None\<rparr>"
  let ?df = "[?r1, ?r2,
      \<lparr>date = \<lparr>year = 2023, month = 4, day = 11, tod = 0\<rparr>, product_name = ''A'',
        sales_amount = 5, quantity = 1, year_month = None, fiscal_year = None\<rparr>, ?b]"
  have recs: "period_records ?df ?s ?e ''A'' = [?r1, ?r2]"
    by (simp add: period_records_def dt_le_def dt_key_def)
  have fin: "f64_sum_finite [10, 20]"
    by (simp add: f64_sum_finite_def f64_finite_def kahan_step_def f64_eval)
  have rows: "period_summary ?df ?s ?e = [(''A'', 30, 3)]"
    by (simp add: groupby_eval f64_eval)
  then have mem: "(''A'', 30, 3) \<in> set (period_summary ?df ?s ?e)"
    by simp
  have whole: "(\<forall>r \<in> set (period_records ?df ?s ?e ''A''). sales_amount r \<in> \<int>) \<and>
      sum_list (map (\<lambda>r. \<bar>sales_amount r\<bar>) (period_records ?df ?s ?e ''A'')) < 2 ^ 53"
    by (simp add: recs)
  have fin': "f64_sum_finite (map sales_amount (period_records ?df ?s ?e ''A''))"
    by (simp add: recs fin)
  note row = period_summary_rows [of ?df ?s ?e, THEN conjunct2, THEN conjunct2,
      THEN conjunct1, rule_format, OF mem]
  from row [THEN conjunct1, symmetric]
  have q: "wrap64 (sum_list (map quantity (period_records ?df ?s ?e ''A''))) = 3" .
  from row [THEN conjunct2, THEN conjunct2, THEN conjunct1, THEN mp, OF fin', symmetric]
  have v: "f64_sum (map sales_amount (period_records ?df ?s ?e ''A'')) = 30" .
  from row [THEN conjunct2, THEN conjunct2, THEN conjunct2, THEN mp, OF whole, symmetric]
  have "sum_list (map sales_amount (period_records ?df ?s ?e ''A'')) = 30" .
  from q v have sums: "wrap64 3 = 3" "f64_sum [10, 20] = 30"
    by (simp_all add: recs)
  have outside: "\<forall>r \<in> set [?b]. \<not> (dt_le ?s (date r) \<and> dt_le (date r) ?e)"
    by (simp add: dt_le_def dt_key_def)
  from period_summary_rows [of "[?b]" ?s ?e, THEN conjunct2, THEN conjunct2, THEN conjunct2,
      THEN mp, OF outside]
  have empty: "period_summary [?b] ?s ?e = []" .
  from rows recs fin sums empty show ?thesis
    by simp
qed

text \<open>
  C6 as stated fails: two records of one product with a quantity of \<open>2 ^ 62\<close> each have
  the sum \<open>2 ^ 63\<close>, and the summary holds \<open>- 2 ^ 63\<close>.
\<close>

theorem period_summary_wraps_counterexample:
  "period_summary
     [\<lparr>date = \<lparr>year = 2023, month = 4, day = 1, tod = 0\<rparr>, product_name = ''A'',
        sales_amount = 1, quantity = 4611686018427387904, year_month = None,
        fiscal_year = None\<rparr>,
      \<lparr>date = \<lparr>year = 2023, month = 4, day = 10, tod = 0\<rparr>, product_name = ''A'',
        sales_amount = 1, quantity = 4611686018427387904, year_month = None,
        fiscal_year = None\<rparr>]
     \<lparr>year = 2023, month = 4, day = 1, tod = 0\<rparr> \<lparr>year = 2023, month = 4, day = 10, tod = 0\<rparr>
   = [(''A'', 2, - 9223372036854775808)] \<and>
   sum_list (map quantity
     [\<lparr>date = \<lparr>year = 2023, month = 4, day = 1, tod = 0\<rparr>, product_name = ''A'',
        sales_amount = 1, quantity = 4611686018427387904, year_month = None,
        fiscal_year = None\<rparr>,
      \<lparr>date = \<lparr>year = 2023, month = 4, day = 10, tod = 0\<rparr>, product_name = ''A'',
        sales_amount = 1, quantity = 4611686018427387904, year_month = None,
        fiscal_year = None\<rparr>])
   = 9223372036854775808"
  by (simp add: groupby_eval f64_eval)

text \<open>
  C9, amended. The products of the aggregation of the concatenation of two record sets are
  the products of either aggregation. For every product the quantity total of the
  concatenation is the sum of the two quantity totals in 64-bit arithmetic, and the exact
  sum of the quantities when that lies in the 64-bit range. The sales total of the
  concatenation is the sum of the two sales totals when the product's amounts are whole
  numbers whose absolute values add up to less than \<open>2 ^ 53\<close>, and it is the total of one
  set when the other has no record of the product in the window. For other amounts the
  floating-point totals need not add up.
\<close>

theorem aggregation_additive:
  "fst ` set (period_summary (A @ B) s e)
     = fst ` set (period_summary A s e) \<union> fst ` set (period_summary B s e) \<and>
   summary_quantity (period_summary (A @ B) s e) p
     = wrap64 (summary_quantity (period_summary A s e) p
               + summary_quantity (period_summary B s e) p) \<and>
   (- (2 ^ 63) \<le> sum_list (map quantity (period_records (A @ B) s e p)) \<and>
    sum_list (map quantity (period_records (A @ B) s e p)) < 2 ^ 63 \<longrightarrow>
      summary_quantity (period_summary (A @ B) s e) p
        = sum_list (map quantity (period_records A s e p))
          + sum_list (map quantity (period_records B s e p))) \<and>
   ((\<forall>r \<in> set (period_records (A @ B) s e p). sales_amount r \<in> \<int>) \<and>
    sum_list (map (\<lambda>r. \<bar>sales_amount r\<bar>) (period_records (A @ B) s e p)) < 2 ^ 53 \<longrightarrow>
      summary_sales (period_summary (A @ B) s e) p
        = summary_sales (period_summary A s e) p + summary_sales (period_summary B s e) p) \<and>
   (period_records B s e p = [] \<longrightarrow>
      summary_sales (period_summary (A @ B) s e) p = summary_sales (period_summary A s e) p) \<and>
   (period_records A s e p = [] \<longrightarrow>
      summary_sales (period_summary (A @ B) s e) p = summary_sales (period_summary B s e) p)"
proof (intro conjI impI)
  let ?a = "period_records A s e p" and ?b = "period_records B s e p"
  show "fst ` set (period_summary (A @ B) s e)
     = fst ` set (period_summary A s e) \<union> fst ` set (period_summary B s e)"
    by (auto simp: period_summary_keys)
  show "summary_quantity (period_summary (A @ B) s e) p
     = wrap64 (summary_quantity (period_summary A s e) p
               + summary_quantity (period_summary B s e) p)"
    by (simp add: summary_quantity_period period_records_append wrap64_add_left
        wrap64_add_right)
  show "summary_quantity (period_summary (A @ B) s e) p
        = sum_list (map quantity ?a) + sum_list (map quantity ?b)"
    if "- (2 ^ 63) \<le> sum_list (map quantity (period_records (A @ B) s e p)) \<and>
        sum_list (map quantity (period_records (A @ B) s e p)) < 2 ^ 63"
    using that wrap64_in_range [of "sum_list (map quantity (period_records (A @ B) s e p))"]
    by (simp add: summary_quantity_period period_records_append)
  show "summary_sales (period_summary (A @ B) s e) p = summary_sales (period_summary A s e) p"
    if "?b = []"
    using that by (simp add: summary_sales_period period_records_append)
  show "summary_sales (period_summary (A @ B) s e) p = summary_sales (period_summary B s e) p"
    if "?a = []"
    using that by (simp add: summary_sales_period period_records_append)
  show "summary_sales (period_summary (A @ B) s e) p
        = summary_sales (period_summary A s e) p + summary_sales (period_summary B s e) p"
    if h: "(\<forall>r \<in> set (period_records (A @ B) s e p). sales_amount r \<in> \<int>) \<and>
       sum_list (map (\<lambda>r. \<bar>sales_amount r\<bar>) (period_records (A @ B) s e p)) < 2 ^ 53"
  proof -
    have na: "0 \<le> sum_list (map (\<lambda>r. \<bar>sales_amount r\<bar>) ?a)"
      and nb: "0 \<le> sum_list (map (\<lambda>r. \<bar>sales_amount r\<bar>) ?b)"
      by (rule sum_list_nonneg, auto)+
    from h have tot: "sum_list (map (\<lambda>r. \<bar>sales_amount r\<bar>) ?a)
        + sum_list (map (\<lambda>r. \<bar>sales_amount r\<bar>) ?b) < 2 ^ 53"
      by (simp add: period_records_append)
    from h have ia: "\<forall>r \<in> set ?a. sales_amount r \<in> \<int>"
      and ib: "\<forall>r \<in> set ?b. sales_amount r \<in> \<int>"
      by (simp_all add: period_records_append)
    from tot na nb have ba: "sum_list (map (\<lambda>r. \<bar>sales_amount r\<bar>) ?a) < 2 ^ 53"
      and bb: "sum_list (map (\<lambda>r. \<bar>sales_amount r\<bar>) ?b) < 2 ^ 53"
      by linarith+
    from h have "summary_sales (period_summary (A @ B) s e) p
        = sum_list (map sales_amount (period_records (A @ B) s e p))"
      using amounts_exact [of "period_records (A @ B) s e p"]
      unfolding summary_sales_period by blast
    moreover have "summary_sales (period_summary A s e) p = sum_list (map sales_amount ?a)"
      using amounts_exact [OF ia ba] by (simp add: summary_sales_period)
    moreover have "summary_sales (period_summary B s e) p = sum_list (map sales_amount ?b)"
      using amounts_exact [OF ib bb] by (simp add: summary_sales_period)
    ultimately show ?thesis
      by (simp add: period_records_append)
  qed
qed

theorem aggregation_additive_witness:
  "summary_sales (period_summary
     ([\<lparr>date = \<lparr>year = 2023, month = 4, day = 1, tod = 0\<rparr>, product_name = ''A'',
         sales_amount = 100, quantity = 1, year_month = None, fiscal_year = None\<rparr>] @
      [\<lparr>date = \<lparr>year = 2023, month = 4, day = 10, tod = 0\<rparr>, product_name = ''A'',
         sales_amount = 80, quantity = 2, year_month = None, fiscal_year = None\<rparr>])
     \<lparr>year = 2023, month = 4, day = 1, tod = 0\<rparr> \<lparr>year = 2023, month = 4, day = 10, tod = 0\<rparr>)
     ''A'' = 180 \<and>
   summary_sales (period_summary
     [\<lparr>date = \<lparr>year = 2023, month = 4, day = 1, tod = 0\<rparr>, product_name = ''A'',
        sales_amount = 100, quantity = 1, year_month = None, fiscal_year = None\<rparr>]
     \<lparr>year = 2023, month = 4, day = 1, tod = 0\<rparr> \<lparr>year = 2023, month = 4, day = 10, tod = 0\<rparr>)
     ''A'' = 100 \<and>
   summary_sales (period_summary
     [\<lparr>date = \<lparr>year = 2023, month = 4, day = 10, tod = 0\<rparr>, product_name = ''A'',
        sales_amount = 80, quantity = 2, year_month = None, fiscal_year = None\<rparr>]
     \<lparr>year = 2023, month = 4, day = 1, tod = 0\<rparr> \<lparr>year = 2023, month = 4, day = 10, tod = 0\<rparr>)
     ''A'' = 80 \<and>
   summary_quantity (period_summary
     ([\<lparr>date = \<lparr>year = 2023, month = 4, day = 1, tod = 0\<rparr>, product_name = ''A'',
         sales_amount = 100, quantity = 1, year_month = None, fiscal_year = None\<rparr>] @
      [\<lparr>date = \<lparr>year = 2023, month = 4, day = 10, tod = 0\<rparr>, product_name = ''A'',
         sales_amount = 80, quantity = 2, year_month = None, fiscal_year = None\<rparr>])
     \<lparr>year = 2023, month = 4, day = 1, tod = 0\<rparr> \<lparr>year = 2023, month = 4, day = 10, tod = 0\<rparr>)
     ''A'' = 3"
proof -
  let ?s = "\<lparr>year = 2023, month = 4, day = 1, tod = 0\<rparr>"
  let ?e = "\<lparr>year = 2023, month = 4, day = 10, tod = 0\<rparr>"
  let ?A = "[\<lparr>date = ?s, product_name = ''A'',
         sales_amount = 100, quantity = 1, year_month = None, fiscal_year = None\<rparr>]"
  let ?B = "[\<lparr>date = ?e, product_name = ''A'',
         sales_amount = 80, quantity = 2, year_month = None, fiscal_year = None\<rparr>]"
  have a: "summary_sales (period_summary ?A ?s ?e) ''A'' = 100"
    and b: "summary_sales (period_summary ?B ?s ?e) ''A'' = 80"
    and qa: "summary_quantity (period_summary ?A ?s ?e) ''A'' = 1"
    and qb: "summary_quantity (period_summary ?B ?s ?e) ''A'' = 2"
    by (simp_all add: summary_sales_def summary_quantity_def groupby_eval f64_eval)
  have recs: "period_records (?A @ ?B) ?s ?e ''A'' = ?A @ ?B"
    by (simp add: period_records_def dt_le_def dt_key_def)
  have whole: "(\<forall>r \<in> set (period_records (?A @ ?B) ?s ?e ''A''). sales_amount r \<in> \<int>) \<and>
      sum_list (map (\<lambda>r. \<bar>sales_amount r\<bar>) (period_records (?A @ ?B) ?s ?e ''A'')) < 2 ^ 53"
    unfolding recs by simp
  have range: "- (2 ^ 63) \<le> sum_list (map quantity (period_records (?A @ ?B) ?s ?e ''A'')) \<and>
      sum_list (map quantity (period_records (?A @ ?B) ?s ?e ''A'')) < 2 ^ 63"
    unfolding recs by simp
  from aggregation_additive [of ?A ?B ?s ?e "''A''"] whole
  have "summary_sales (period_summary (?A @ ?B) ?s ?e) ''A''
      = summary_sales (period_summary ?A ?s ?e) ''A'' + summary_sales (period_summary ?B ?s ?e) ''A''"
    by blast
  moreover from aggregation_additive [of ?A ?B ?s ?e "''A''"]
  have "summary_quantity (period_summary (?A @ ?B) ?s ?e) ''A''
      = wrap64 (summary_quantity (period_summary ?A ?s ?e) ''A''
               + summary_quantity (period_summary ?B ?s ?e) ''A'')"
    by blast
  ultimately show ?thesis
    by (simp only: a b qa qb) (simp add: wrap64_def)
qed

text \<open>
  C9 as stated fails: with the amounts 0.1 and 0.2 in the first set and 0.3 in the second
  (the floating-point numbers nearest to them), the total of the concatenation is the
  number nearest to 0.6, the two separate totals add up to the next number above it, in
  floating-point as in exact arithmetic. Splitting the same records after the first one
  gives the number nearest to 0.6 as the sum of the two totals, so whatever the total of
  the concatenation is, it differs from the sum for one of the two splits.
\<close>

theorem aggregation_not_additive_counterexample:
  "summary_sales (period_summary
     ([\<lparr>date = \<lparr>year = 2023, month = 4, day = 1, tod = 0\<rparr>, product_name = ''A'',
         sales_amount = 3602879701896397 / 36028797018963968, quantity = 1,
         year_month = None, fiscal_year = None\<rparr>,
       \<lparr>date = \<lparr>year = 2023, month = 4, day = 2, tod = 0\<rparr>, product_name = ''A'',
         sales_amount = 3602879701896397 / 18014398509481984, quantity = 1,
         year_month = None, fiscal_year = None\<rparr>] @
      [\<lparr>date = \<lparr>year = 2023, month = 4, day = 3, tod = 0\<rparr>, product_name = ''A'',
         sales_amount = 5404319552844595 / 18014398509481984, quantity = 1,
         year_month = None, fiscal_year = None\<rparr>])
     \<lparr>year = 2023, month = 4, day = 1, tod = 0\<rparr> \<lparr>year = 2023, month = 4, day = 10, tod = 0\<rparr>)
     ''A'' = 5404319552844595 / 9007199254740992 \<and>
   summary_sales (period_summary
     [\<lparr>date = \<lparr>year = 2023, month = 4, day = 1, tod = 0\<rparr>, product_name = ''A'',
        sales_amount = 3602879701896397 / 36028797018963968, quantity = 1,
        year_month = None, fiscal_year = None\<rparr>,
      \<lparr>date = \<lparr>year = 2023, month = 4, day = 2, tod = 0\<rparr>, product_name = ''A'',
        sales_amount = 3602879701896397 / 18014398509481984, quantity = 1,
        year_month = None, fiscal_year = None\<rparr>]
     \<lparr>year = 2023, month = 4, day = 1, tod = 0\<rparr> \<lparr>year = 2023, month = 4, day = 10, tod = 0\<rparr>)
     ''A'' = 1351079888211149 / 4503599627370496 \<and>
   summary_sales (period_summary
     [\<lparr>date = \<lparr>year = 2023, month = 4, day = 3, tod = 0\<rparr>, product_name = ''A'',
        sales_amount = 5404319552844595 / 18014398509481984, quantity = 1,
        year_month = None, fiscal_year = None\<rparr>]
     \<lparr>year = 2023, month = 4, day = 1, tod = 0\<rparr> \<lparr>year = 2023, month = 4, day = 10, tod = 0\<rparr>)
     ''A'' = 5404319552844595 / 18014398509481984 \<and>
   f64_add (1351079888211149 / 4503599627370496) (5404319552844595 / 18014398509481984)
     = 1351079888211149 / 2251799813685248 \<and>
   (1351079888211149 / 4503599627370496 :: rat) + 5404319552844595 / 18014398509481984
     \<noteq> 5404319552844595 / 9007199254740992 \<and>
   (1351079888211149 / 2251799813685248 :: rat) \<noteq> 5404319552844595 / 9007199254740992 \<and>
   f64_add (3602879701896397 / 36028797018963968)
     (f64_add (3602879701896397 / 18014398509481984) (5404319552844595 / 18014398509481984))
     = 5404319552844595 / 9007199254740992"
  by (simp add: summary_sales_def groupby_eval f64_eval)

section \<open>Properties of the merge\<close>

lemma map_of_tabulate:
  "map_of (map (\<lambda>k. (k, f k)) ks) k = (if k \<in> set ks then Some (f k) else None)"
  by (induction ks) auto

lemma merge_outer_keys:
  "map fst (merge_outer l r) = sort (remdups (map fst l @ map fst r))"
  by (simp add: merge_outer_def comp_def)

lemma merge_outer_key_set:
  "fst ` set (merge_outer l r) = fst ` set l \<union> fst ` set r"
proof -
  have "fst ` set (merge_outer l r) = set (map fst (merge_outer l r))" by simp
  also have "\<dots> = fst ` set l \<union> fst ` set r"
    unfolding merge_outer_keys by simp
  finally show ?thesis .
qed

lemma merge_outer_distinct:
  "distinct (map fst (merge_outer l r))"
  unfolding merge_outer_keys by simp

lemma map_of_merge_outer:
  "map_of (merge_outer l r) k =
     (if k \<in> fst ` set l \<union> fst ` set r then Some (map_of l k, map_of r k) else None)"
  unfolding merge_outer_def by (simp add: map_of_tabulate)

lemma map_of_absent:
  "k \<notin> fst ` set l \<Longrightarrow> map_of l k = None"
  by (simp add: map_of_eq_None_iff)

lemma merge_metrics_row:
  assumes "m \<in> set (merge_metrics ys ps qs a fy)"
  shows "metrics_row.product_name m \<in> fst ` set ys \<union> fst ` set ps \<union> fst ` set qs"
    "ytd_sales m = summary_sales ys (metrics_row.product_name m)"
    "ytd_quantity m = summary_quantity ys (metrics_row.product_name m)"
    "pytd_sales m = summary_sales ps (metrics_row.product_name m)"
    "pytd_quantity m = summary_quantity ps (metrics_row.product_name m)"
    "p1ytd_sales m = summary_sales qs (metrics_row.product_name m)"
    "p1ytd_quantity m = summary_quantity qs (metrics_row.product_name m)"
    "as_of_date m = a" "metrics_row.fiscal_year m = fy"
proof -
  let ?inner = "merge_outer ys ps"
  from assms obtain k where k: "k \<in> set (sort (remdups (map fst ?inner @ map fst qs)))"
    and m: "m = (let yp = map_of ?inner k; q = map_of qs k;
                     y = (case yp of None \<Rightarrow> None | Some (y, p) \<Rightarrow> y);
                     p = (case yp of None \<Rightarrow> None | Some (y, p) \<Rightarrow> p)
            in \<lparr>product_name = k,
                ytd_sales = fillna (map_option fst y), ytd_quantity = fillna (map_option snd y),
                pytd_sales = fillna (map_option fst p), pytd_quantity = fillna (map_option snd p),
                p1ytd_sales = fillna (map_option fst q), p1ytd_quantity = fillna (map_option snd q),
                as_of_date = a, fiscal_year = fy\<rparr>)"
    unfolding merge_metrics_def merge_outer_def [of ?inner qs] by (auto simp: Let_def)
  have y: "(case map_of ?inner k of None \<Rightarrow> None | Some (y, p) \<Rightarrow> y) = map_of ys k"
    by (simp add: map_of_merge_outer map_of_absent)
  have p: "(case map_of ?inner k of None \<Rightarrow> None | Some (y, p) \<Rightarrow> p) = map_of ps k"
    by (simp add: map_of_merge_outer map_of_absent)
  have name: "metrics_row.product_name m = k"
    by (simp add: m Let_def)
  from k show "metrics_row.product_name m \<in> fst ` set ys \<union> fst ` set ps \<union> fst ` set qs"
    unfolding name using merge_outer_key_set [of ys ps] by auto
  show "ytd_sales m = summary_sales ys (metrics_row.product_name m)"
    unfolding name by (simp add: m Let_def y summary_sales_def fillna_def split: option.splits)
  show "ytd_quantity m = summary_quantity ys (metrics_row.product_name m)"
    unfolding name by (simp add: m Let_def y summary_quantity_def fillna_def split: option.splits)
  show "pytd_sales m = summary_sales ps (metrics_row.product_name m)"
    unfolding name by (simp add: m Let_def p summary_sales_def fillna_def split: option.splits)
  show "pytd_quantity m = summary_quantity ps (metrics_row.product_name m)"
    unfolding name by (simp add: m Let_def p summary_quantity_def fillna_def split: option.splits)
  show "p1ytd_sales m = summary_sales qs (metrics_row.product_name m)"
    unfolding name by (simp add: m Let_def summary_sales_def fillna_def split: option.splits)
  show "p1ytd_quantity m = summary_quantity qs (metrics_row.product_name m)"
    unfolding name by (simp add: m Let_def summary_quantity_def fillna_def split: option.splits)
  show "as_of_date m = a" "metrics_row.fiscal_year m = fy"
    by (simp_all add: m Let_def)
qed

lemma merge_metrics_names:
  "map metrics_row.product_name (merge_metrics ys ps qs a fy)
     = sort (remdups (map fst (merge_outer ys ps) @ map fst qs))"
  unfolding merge_metrics_def merge_outer_def [of "merge_outer ys ps" qs]
  by (simp add: comp_def Let_def)

lemma summary_absent:
  "p \<notin> fst ` set s \<Longrightarrow> summary_sales s p = 0 \<and> summary_quantity s p = 0"
  by (simp add: summary_sales_def summary_quantity_def map_of_absent)

lemma calculate_ytd_metrics_result:
  assumes "calculate_ytd_metrics parse df as_of_arg = (df', Inr ms)"
  shows "\<exists>dates a w. to_datetime parse (map date df) = Inr dates \<and>
           default_as_of dates as_of_arg = Some a \<and> ytd_windows a = Inr w \<and>
           ms = merge_metrics
                  (period_summary (assign_date df dates) (ytd_start w) (ytd_end w))
                  (period_summary (assign_date df dates) (pytd_start w) (pytd_end w))
                  (period_summary (assign_date df dates) (p1ytd_start w) (p1ytd_end w))
                  a (get_fiscal_year a)"
  using assms
  by (auto simp: calculate_ytd_metrics_def Let_def and_then_Inr
      split: sum.splits option.splits)

text \<open>
  C4. The merge of the three summaries is a full outer join on the product name: the
  products of the result are the products of any of the three summaries, one row each; a
  row holds the product's totals in each summary, and zero for both the sales and the
  quantity of a summary that has no row for the product; every row carries the same as-of
  date and the same fiscal year. The metrics that \<open>calculate_ytd_metrics\<close> returns are this
  merge of the summaries of its three windows, with the as-of date of the call and the
  fiscal year of that date.
\<close>

theorem merge_metrics_outer_join:
  "metrics_row.product_name ` set (merge_metrics ys ps qs a fy)
     = fst ` set ys \<union> fst ` set ps \<union> fst ` set qs \<and>
   distinct (map metrics_row.product_name (merge_metrics ys ps qs a fy)) \<and>
   (\<forall>m \<in> set (merge_metrics ys ps qs a fy).
      ytd_sales m = summary_sales ys (metrics_row.product_name m) \<and>
      ytd_quantity m = summary_quantity ys (metrics_row.product_name m) \<and>
      pytd_sales m = summary_sales ps (metrics_row.product_name m) \<and>
      pytd_quantity m = summary_quantity ps (metrics_row.product_name m) \<and>
      p1ytd_sales m = summary_sales qs (metrics_row.product_name m) \<and>
      p1ytd_quantity m = summary_quantity qs (metrics_row.product_name m) \<and>
      (metrics_row.product_name m \<notin> fst ` set ys \<longrightarrow> ytd_sales m = 0 \<and> ytd_quantity m = 0) \<and>
      (metrics_row.product_name m \<notin> fst ` set ps \<longrightarrow> pytd_sales m = 0 \<and> pytd_quantity m = 0) \<and>
      (metrics_row.product_name m \<notin> fst ` set qs \<longrightarrow> p1ytd_sales m = 0 \<and> p1ytd_quantity m = 0) \<and>
      as_of_date m = a \<and> metrics_row.fiscal_year m = fy) \<and>
   (\<forall>df' ms. calculate_ytd_metrics parse df as_of_arg = (df', Inr ms) \<longrightarrow>
      (\<exists>dates d w. to_datetime parse (map date df) = Inr dates \<and>
         default_as_of dates as_of_arg = Some d \<and> ytd_windows d = Inr w \<and>
         ms = merge_metrics
                (period_summary (assign_date df dates) (ytd_start w) (ytd_end w))
                (period_summary (assign_date df dates) (pytd_start w) (pytd_end w))
                (period_summary (assign_date df dates) (p1ytd_start w) (p1ytd_end w))
                d (get_fiscal_year d)))"
proof (intro conjI ballI)
  show "\<forall>df' ms. calculate_ytd_metrics parse df as_of_arg = (df', Inr ms) \<longrightarrow>
      (\<exists>dates d w. to_datetime parse (map date df) = Inr dates \<and>
         default_as_of dates as_of_arg = Some d \<and> ytd_windows d = Inr w \<and>
         ms = merge_metrics
                (period_summary (assign_date df dates) (ytd_start w) (ytd_end w))
                (period_summary (assign_date df dates) (pytd_start w) (pytd_end w))
                (period_summary (assign_date df dates) (p1ytd_start w) (p1ytd_end w))
                d (get_fiscal_year d))"
    using calculate_ytd_metrics_result by blast
  have "metrics_row.product_name ` set (merge_metrics ys ps qs a fy)
      = set (map metrics_row.product_name (merge_metrics ys ps qs a fy))"
    by simp
  also have "\<dots> = fst ` set (merge_outer ys ps) \<union> fst ` set qs"
    unfolding merge_metrics_names by simp
  finally show "metrics_row.product_name ` set (merge_metrics ys ps qs a fy)
     = fst ` set ys \<union> fst ` set ps \<union> fst ` set qs"
    by (simp add: merge_outer_key_set)
  show "distinct (map metrics_row.product_name (merge_metrics ys ps qs a fy))"
    unfolding merge_metrics_names by simp
next
  fix m
  assume m: "m \<in> set (merge_metrics ys ps qs a fy)"
  note r = merge_metrics_row [OF m]
  show "ytd_sales m = summary_sales ys (metrics_row.product_name m)" by (rule r)
  show "ytd_quantity m = summary_quantity ys (metrics_row.product_name m)" by (rule r)
  show "pytd_sales m = summary_sales ps (metrics_row.product_name m)" by (rule r)
  show "pytd_quantity m = summary_quantity ps (metrics_row.product_name m)" by (rule r)
  show "p1ytd_sales m = summary_sales qs (metrics_row.product_name m)" by (rule r)
  show "p1ytd_quantity m = summary_quantity qs (metrics_row.product_name m)" by (rule r)
  show "metrics_row.product_name m \<notin> fst ` set ys \<longrightarrow> ytd_sales m = 0 \<and> ytd_quantity m = 0"
    using r(2,3) summary_absent [of "metrics_row.product_name m" ys] by simp
  show "metrics_row.product_name m \<notin> fst ` set ps \<longrightarrow> pytd_sales m = 0 \<and> pytd_quantity m = 0"
    using r(4,5) summary_absent [of "metrics_row.product_name m" ps] by simp
  show "metrics_row.product_name m \<notin> fst ` set qs \<longrightarrow> p1ytd_sales m = 0 \<and> p1ytd_quantity m = 0"
    using r(6,7) summary_absent [of "metrics_row.product_name m" qs] by simp
  show "as_of_date m = a" by (rule r)
  show "metrics_row.fiscal_year m = fy" by (rule r)
qed

theorem merge_metrics_outer_join_witness:
  "map metrics_row.product_name
     (merge_metrics [(''A'', 100, 1), (''B'', 50, 2)] [(''A'', 80, 1)] [(''A'', 40, 1), (''C'', 5, 1)]
        \<lparr>year = 2023, month = 4, day = 10, tod = 0\<rparr> ''FY 2023-24'')
   = [''A'', ''B'', ''C''] \<and>
   metrics_row.product_name `
     set (merge_metrics [(''A'', 100, 1), (''B'', 50, 2)] [(''A'', 80, 1)] [(''A'', 40, 1), (''C'', 5, 1)]
        \<lparr>year = 2023, month = 4, day = 10, tod = 0\<rparr> ''FY 2023-24'')
   = {''A'', ''B'', ''C''} \<and>
   map pytd_sales
     (merge_metrics [(''A'', 100, 1), (''B'', 50, 2)] [(''A'', 80, 1)] [(''A'', 40, 1), (''C'', 5, 1)]
        \<lparr>year = 2023, month = 4, day = 10, tod = 0\<rparr> ''FY 2023-24'')
   = [80, 0, 0] \<and>
   map ytd_quantity
     (merge_metrics [(''A'', 100, 1), (''B'', 50, 2)] [(''A'', 80, 1)] [(''A'', 40, 1), (''C'', 5, 1)]
        \<lparr>year = 2023, month = 4, day = 10, tod = 0\<rparr> ''FY 2023-24'')
   = [1, 2, 0]"
proof -
  let ?ms = "merge_metrics [(''A'', 100, 1), (''B'', 50, 2)] [(''A'', 80, 1)]
        [(''A'', 40, 1), (''C'', 5, 1)] \<lparr>year = 2023, month = 4, day = 10, tod = 0\<rparr> ''FY 2023-24''"
  have names: "map metrics_row.product_name ?ms = [''A'', ''B'', ''C'']"
    by (simp add: merge_metrics_def merge_outer_def Let_def)
  have "metrics_row.product_name ` set ?ms = {''A'', ''B'', ''C''}"
    using merge_metrics_outer_join
      [of "[(''A'', 100, 1), (''B'', 50, 2)]" "[(''A'', 80, 1)]" "[(''A'', 40, 1), (''C'', 5, 1)]"
        "\<lparr>year = 2023, month = 4, day = 10, tod = 0\<rparr>" "''FY 2023-24''"]
    by auto
  moreover have "map pytd_sales ?ms = [80, 0, 0]" "map ytd_quantity ?ms = [1, 2, 0]"
    by (simp_all add: merge_metrics_def merge_outer_def Let_def fillna_def)
  ultimately show ?thesis using names by simp
qed

section \<open>Properties of the deltas\<close>



text \<open>
  The scenario of the specification: four records, as of 10 April 2023. Product A has sales
  of 100, 80 and 40 in the three windows, a delta of 20 and a growth of 25 percent; product
  B has no sales before the current window, a growth of zero and the label \<^verbatim>\<open>Growing\<close>.
\<close>

lemma end_to_end_scenario:
  "(case snd (calculate_ytd_metrics (\<lambda>s. None)
       [\<lparr>date = Stamp \<lparr>year = 2023, month = 4, day = 10, tod = 0\<rparr>, product_name = ''A'',
          sales_amount = 100, quantity = 1, year_month = None, fiscal_year = None\<rparr>,
        \<lparr>date = Stamp \<lparr>year = 2023, month = 4, day = 10, tod = 0\<rparr>, product_name = ''B'',
          sales_amount = 50, quantity = 2, year_month = None, fiscal_year = None\<rparr>,
        \<lparr>date = Stamp \<lparr>year = 2022, month = 4, day = 10, tod = 0\<rparr>, product_name = ''A'',
          sales_amount = 80, quantity = 1, year_month = None, fiscal_year = None\<rparr>,
        \<lparr>date = Stamp \<lparr>year = 2021, month = 4, day = 10, tod = 0\<rparr>, product_name = ''A'',
          sales_amount = 40, quantity = 1, year_month = None, fiscal_year = None\<rparr>]
       (Some \<lparr>year = 2023, month = 4, day = 10, tod = 0\<rparr>)) of
     Inl e \<Rightarrow> []
   | Inr ms \<Rightarrow>
       map (\<lambda>r. (metrics_row.product_name r, ytd_sales r, pytd_sales r, p1ytd_sales r,
                  delta_ytd_pytd r, growth_ytd_vs_pytd_pct r, performance r))
         (calculate_deltas ms))
   = [(''A'', 100, 80, 40, 20, Finite 25, ''Growing''),
      (''B'', 50, 0, 0, 50, Finite 0, ''Growing'')]"
proof -
  let ?a = "\<lparr>year = 2023, month = 4, day = 10, tod = 0\<rparr>"
  let ?b = "\<lparr>year = 2022, month = 4, day = 10, tod = 0\<rparr>"
  let ?c = "\<lparr>year = 2021, month = 4, day = 10, tod = 0\<rparr>"
  let ?row = "\<lambda>d p v q. \<lparr>date = d, product_name = p, sales_amount = v, quantity = q,
      year_month = None, fiscal_year = None\<rparr>"
  let ?df = "[?row ?a ''A'' 100 1, ?row ?a ''B'' 50 2, ?row ?b ''A'' 80 1, ?row ?c ''A'' 40 1]"
  let ?m = "\<lambda>p y yq py pyq qy qyq. \<lparr>product_name = p, ytd_sales = y, ytd_quantity = yq,
      pytd_sales = py, pytd_quantity = pyq, p1ytd_sales = qy, p1ytd_quantity = qyq,
      as_of_date = ?a, fiscal_year = ''FY 2023-24''\<rparr>"
  have w: "ytd_windows ?a
     = Inr \<lparr>ytd_start = \<lparr>year = 2023, month = 4, day = 1, tod = 0\<rparr>, ytd_end = ?a,
            pytd_start = \<lparr>year = 2022, month = 4, day = 1, tod = 0\<rparr>, pytd_end = ?b,
            p1ytd_start = \<lparr>year = 2021, month = 4, day = 1, tod = 0\<rparr>, p1ytd_end = ?c\<rparr>"
    by code_simp
  have fy: "get_fiscal_year ?a = ''FY 2023-24''"
    by code_simp
  have ys: "period_summary ?df \<lparr>year = 2023, month = 4, day = 1, tod = 0\<rparr> ?a
      = [(''A'', 100, 1), (''B'', 50, 2)]"
    by (simp add: groupby_eval f64_eval dt_le_def dt_key_def)
  have ps: "period_summary ?df \<lparr>year = 2022, month = 4, day = 1, tod = 0\<rparr> ?b = [(''A'', 80, 1)]"
    by (simp add: groupby_eval f64_eval dt_le_def dt_key_def)
  have qs: "period_summary ?df \<lparr>year = 2021, month = 4, day = 1, tod = 0\<rparr> ?c = [(''A'', 40, 1)]"
    by (simp add: groupby_eval f64_eval dt_le_def dt_key_def)
  have mm: "merge_metrics [(''A'', 100, 1), (''B'', 50, 2)] [(''A'', 80, 1)] [(''A'', 40, 1)]
      ?a ''FY 2023-24'' = [?m ''A'' 100 1 80 1 40 1, ?m ''B'' 50 2 0 0 0 0]"
    by (simp add: merge_metrics_def merge_outer_def fillna_def Let_def)
  have "snd (calculate_ytd_metrics (\<lambda>s. None)
       [?row (Stamp ?a) ''A'' 100 1, ?row (Stamp ?a) ''B'' 50 2, ?row (Stamp ?b) ''A'' 80 1,
        ?row (Stamp ?c) ''A'' 40 1] (Some ?a))
      = Inr [?m ''A'' 100 1 80 1 40 1, ?m ''B'' 50 2 0 0 0 0]"
    by (simp add: calculate_ytd_metrics_def to_datetime_cell_def and_then_def default_as_of_def
        w fy assign_date_def set_date_def ys ps qs mm)
  then show ?thesis
    by (simp add: calculate_deltas_def deltas_of_def metrics_row.extend_def
        deltas_row.fields_def growth_pct_def true_div_def times_100_def replace_inf_def
        performance_of_def)
qed

lemma growth_pct_zero_base:
  "growth_pct x 0 = (if x = 0 then NaN else Finite 0)"
  by (simp add: growth_pct_def true_div_def times_100_def replace_inf_def)

text \<open>
  C1. A product with records in the P1YTD window only has zero YTD sales and zero PYTD
  sales after the merge. For such a row \<open>calculate_deltas\<close> divides zero by zero, the
  quotient is \<^verbatim>\<open>NaN\<close>, and replacing the infinities leaves it: the growth percentage is
  \<^verbatim>\<open>NaN\<close>, not zero.
\<close>

theorem growth_pct_zero_over_zero:
  "snd (calculate_ytd_metrics (\<lambda>s. None)
          [\<lparr>date = Stamp \<lparr>year = 2021, month = 4, day = 10, tod = 0\<rparr>, product_name = ''A'',
             sales_amount = 40, quantity = 1, year_month = None, fiscal_year = None\<rparr>]
          (Some \<lparr>year = 2023, month = 4, day = 10, tod = 0\<rparr>))
   = Inr [\<lparr>product_name = ''A'', ytd_sales = 0, ytd_quantity = 0, pytd_sales = 0,
            pytd_quantity = 0, p1ytd_sales = 40, p1ytd_quantity = 1,
            as_of_date = \<lparr>year = 2023, month = 4, day = 10, tod = 0\<rparr>,
            fiscal_year = ''FY 2023-24''\<rparr>] \<and>
   map growth_ytd_vs_pytd_pct
     (calculate_deltas
        [\<lparr>product_name = ''A'', ytd_sales = 0, ytd_quantity = 0, pytd_sales = 0,
           pytd_quantity = 0, p1ytd_sales = 40, p1ytd_quantity = 1,
           as_of_date = \<lparr>year = 2023, month = 4, day = 10, tod = 0\<rparr>,
           fiscal_year = ''FY 2023-24''\<rparr>])
   = [NaN] \<and>
   growth_pct 0 0 = NaN"
proof -
  let ?a = "\<lparr>year = 2023, month = 4, day = 10, tod = 0\<rparr>"
  have w: "ytd_windows ?a
     = Inr \<lparr>ytd_start = \<lparr>year = 2023, month = 4, day = 1, tod = 0\<rparr>,
            ytd_end = \<lparr>year = 2023, month = 4, day = 10, tod = 0\<rparr>,
            pytd_start = \<lparr>year = 2022, month = 4, day = 1, tod = 0\<rparr>,
            pytd_end = \<lparr>year = 2022, month = 4, day = 10, tod = 0\<rparr>,
            p1ytd_start = \<lparr>year = 2021, month = 4, day = 1, tod = 0\<rparr>,
            p1ytd_end = \<lparr>year = 2021, month = 4, day = 10, tod = 0\<rparr>\<rparr>"
    by code_simp
  have fy: "get_fiscal_year ?a = ''FY 2023-24''"
    by code_simp
  have n: "growth_pct 0 0 = NaN"
    by (simp add: growth_pct_zero_base)
  show ?thesis
    by (simp add: calculate_ytd_metrics_def to_datetime_cell_def and_then_def default_as_of_def
        w fy assign_date_def set_date_def groupby_eval f64_eval
        dt_le_def dt_key_def merge_metrics_def merge_outer_def fillna_def Let_def
        calculate_deltas_def deltas_of_def metrics_row.extend_def deltas_row.fields_def n)
qed

section \<open>Properties of the date conversion and of the as-of date\<close>

lemma to_datetime_length:
  "to_datetime parse cs = Inr ds \<Longrightarrow> length ds = length cs"
  by (induction cs arbitrary: ds) (auto simp: and_then_Inr)

lemma to_datetime_cell_error:
  "to_datetime_cell parse c = Inl e \<Longrightarrow> e = ValueError"
  by (auto simp: to_datetime_cell_def split: date_cell.splits option.splits)

lemma to_datetime_error:
  "to_datetime parse cs = Inl e \<Longrightarrow> e = ValueError"
proof (induction cs)
  case Nil
  then show ?case by simp
next
  case (Cons c cs)
  then show ?case
    by (cases "to_datetime_cell parse c"; cases "to_datetime parse cs")
       (auto simp: and_then_def dest: to_datetime_cell_error)
qed

lemma to_datetime_unparsable:
  assumes "Text s \<in> set cs" "parse s = None"
  shows "to_datetime parse cs = Inl ValueError"
proof -
  have "to_datetime parse cs \<noteq> Inr ds" for ds
    using assms(1)
  proof (induction cs arbitrary: ds)
    case Nil
    then show ?case by simp
  next
    case (Cons c cs)
    show ?case
    proof (cases "c = Text s")
      case True
      with assms(2) show ?thesis
        by (simp add: to_datetime_cell_def and_then_def)
    next
      case False
      with Cons.prems have "Text s \<in> set cs" by simp
      from Cons.IH [OF this] show ?thesis
        by (auto simp: and_then_Inr)
    qed
  qed
  then obtain e where "to_datetime parse cs = Inl e"
    by (cases "to_datetime parse cs") auto
  with to_datetime_error [OF this] show ?thesis by simp
qed

text \<open>
  C8, amended. When a record of the table has a date that the parser cannot read, the
  computation fails with the \<^verbatim>\<open>ValueError\<close> that \<^verbatim>\<open>pandas.to_datetime\<close> raises, which reaches
  the caller: no metrics are returned, the record is not skipped, and the table is left as
  it was. The same holds for \<open>get_monthly_trends\<close>. The date in question is a text that
  the parser rejects; a blank or missing date is read as \<^verbatim>\<open>NaT\<close> without an exception and
  is not covered.
\<close>

theorem unparsable_date_raises:
  assumes "r \<in> set df" "date r = Text s" "parse s = None"
  shows "calculate_ytd_metrics parse df as_of_arg = (df, Inl ValueError) \<and>
         get_monthly_trends parse df = (df, Inl ValueError)"
proof -
  from assms(1,2) have "Text s \<in> set (map date df)"
    by (metis image_eqI set_map)
  from to_datetime_unparsable [of s "map date df" parse, OF this assms(3)] show ?thesis
    by (simp add: calculate_ytd_metrics_def get_monthly_trends_def)
qed

theorem unparsable_date_raises_witness:
  "calculate_ytd_metrics (\<lambda>s. None)
     [\<lparr>date = Stamp \<lparr>year = 2023, month = 4, day = 10, tod = 0\<rparr>, product_name = ''A'',
        sales_amount = 100, quantity = 1, year_month = None, fiscal_year = None\<rparr>,
      \<lparr>date = Text ''10th of Aprill'', product_name = ''B'',
        sales_amount = 50, quantity = 2, year_month = None, fiscal_year = None\<rparr>]
     None
   = ([\<lparr>date = Stamp \<lparr>year = 2023, month = 4, day = 10, tod = 0\<rparr>, product_name = ''A'',
         sales_amount = 100, quantity = 1, year_month = None, fiscal_year = None\<rparr>,
       \<lparr>date = Text ''10th of Aprill'', product_name = ''B'',
         sales_amount = 50, quantity = 2, year_month = None, fiscal_year = None\<rparr>],
      Inl ValueError)"
proof -
  let ?bad = "\<lparr>date = Text ''10th of Aprill'', product_name = ''B'',
        sales_amount = 50, quantity = 2, year_month = None, fiscal_year = None\<rparr>"
  let ?df = "[\<lparr>date = Stamp \<lparr>year = 2023, month = 4, day = 10, tod = 0\<rparr>, product_name = ''A'',
        sales_amount = 100, quantity = 1, year_month = None, fiscal_year = None\<rparr>, ?bad]"
  have "?bad \<in> set ?df" "date ?bad = Text ''10th of Aprill''"
    "(\<lambda>s. None :: datetime option) ''10th of Aprill'' = None"
    by simp_all
  from unparsable_date_raises [OF this, of None] show ?thesis
    by simp
qed

text \<open>
  C8 as stated fails: on a table whose only record has an unreadable date the exception
  that reaches the caller is \<^verbatim>\<open>ValueError\<close>; no exception named \<^verbatim>\<open>InvalidRecordError\<close>
  exists in the module.
\<close>

theorem invalid_record_error_counterexample:
  "snd (calculate_ytd_metrics (\<lambda>s. None)
          [\<lparr>date = Text ''not a date'', product_name = ''A'', sales_amount = 100,
             quantity = 1, year_month = None, fiscal_year = None\<rparr>]
          None)
   = Inl ValueError \<and>
   error_name ValueError \<noteq> ''InvalidRecordError''"
  by (simp add: calculate_ytd_metrics_def to_datetime_cell_def and_then_def error_name_def)

lemma dt_le_refl: "dt_le a a"
  by (simp add: dt_le_def)

lemma dt_le_trans: "dt_le a b \<Longrightarrow> dt_le b c \<Longrightarrow> dt_le a c"
  unfolding dt_le_def by (rule order_trans)

lemma dt_le_total: "dt_le a b \<or> dt_le b a"
  unfolding dt_le_def by (rule linear)

lemma fold_max:
  "fold (\<lambda>x m. if dt_le m x then x else m) ds d \<in> set (d # ds) \<and>
   (\<forall>x \<in> set (d # ds). dt_le x (fold (\<lambda>x m. if dt_le m x then x else m) ds d))"
proof (induction ds arbitrary: d)
  case Nil
  then show ?case by (simp add: dt_le_refl)
next
  case (Cons x ds)
  let ?f = "\<lambda>x m. if dt_le m x then x else m"
  show ?case
  proof (cases "dt_le d x")
    case True
    from Cons.IH [of x] have "fold ?f ds x \<in> set (x # ds)"
      and ub: "\<forall>y \<in> set (x # ds). dt_le y (fold ?f ds x)" by simp_all
    moreover from ub True have "dt_le d (fold ?f ds x)"
      using dt_le_trans by auto
    ultimately show ?thesis using True by auto
  next
    case False
    then have xd: "dt_le x d" using dt_le_total by blast
    from Cons.IH [of d] have "fold ?f ds d \<in> set (d # ds)"
      and ub: "\<forall>y \<in> set (d # ds). dt_le y (fold ?f ds d)" by simp_all
    moreover from ub xd have "dt_le x (fold ?f ds d)"
      using dt_le_trans by auto
    ultimately show ?thesis using False by auto
  qed
qed

lemma series_max_latest:
  assumes "dates \<noteq> []"
  shows "\<exists>a. series_max dates = Some a \<and> a \<in> set dates \<and> (\<forall>d \<in> set dates. dt_le d a)"
proof -
  from assms obtain d ds where "dates = d # ds" by (cases dates) auto
  with fold_max [of ds d] show ?thesis by simp
qed

lemma ytd_windows_end:
  "ytd_windows a = Inr w \<Longrightarrow> ytd_end w = a"
  by (auto simp: ytd_windows_def get_ytd_date_range_def and_then_Inr split: prod.splits)

text \<open>
  C10. With no as-of date, \<open>calculate_ytd_metrics\<close> takes the latest date of the records of
  a non-empty table as the as-of date: it is one of the dates and no date is later. The call
  is the call with that date given: its YTD summary is the summary of the window that ends
  at the latest date, the two earlier windows are the ones computed from it, an error of the
  window computation is the outcome of the call, and every row of the metrics carries the
  date.
\<close>

theorem default_as_of_latest:
  assumes "to_datetime parse (map date df) = Inr dates" and "df \<noteq> []"
  shows "\<exists>a. default_as_of dates None = Some a \<and> a \<in> set dates \<and>
           (\<forall>d \<in> set dates. dt_le d a) \<and>
           calculate_ytd_metrics parse df None = calculate_ytd_metrics parse df (Some a) \<and>
           (\<forall>w. ytd_windows a = Inr w \<longrightarrow>
              ytd_end w = a \<and>
              snd (calculate_ytd_metrics parse df None)
                = Inr (merge_metrics
                         (period_summary (assign_date df dates) (ytd_start w) a)
                         (period_summary (assign_date df dates) (pytd_start w) (pytd_end w))
                         (period_summary (assign_date df dates) (p1ytd_start w) (p1ytd_end w))
                         a (get_fiscal_year a))) \<and>
           (\<forall>e. ytd_windows a = Inl e \<longrightarrow> snd (calculate_ytd_metrics parse df None) = Inl e) \<and>
           (\<forall>df' ms. calculate_ytd_metrics parse df None = (df', Inr ms) \<longrightarrow>
              (\<forall>m \<in> set ms. as_of_date m = a))"
proof -
  from to_datetime_length [OF assms(1)] assms(2) have "dates \<noteq> []" by auto
  from series_max_latest [OF this] obtain a where
    a: "series_max dates = Some a" "a \<in> set dates" "\<forall>d \<in> set dates. dt_le d a"
    by blast
  have d: "default_as_of dates None = Some a"
    by (simp add: default_as_of_def a)
  have same: "calculate_ytd_metrics parse df None = calculate_ytd_metrics parse df (Some a)"
    using d by (simp add: calculate_ytd_metrics_def assms(1) default_as_of_def)
  have win: "ytd_end w = a \<and>
      snd (calculate_ytd_metrics parse df None)
        = Inr (merge_metrics
                 (period_summary (assign_date df dates) (ytd_start w) a)
                 (period_summary (assign_date df dates) (pytd_start w) (pytd_end w))
                 (period_summary (assign_date df dates) (p1ytd_start w) (p1ytd_end w))
                 a (get_fiscal_year a))"
    if w: "ytd_windows a = Inr w" for w
  proof -
    from ytd_windows_end [OF w] have e: "ytd_end w = a" .
    have "snd (calculate_ytd_metrics parse df None)
        = Inr (merge_metrics
                 (period_summary (assign_date df dates) (ytd_start w) (ytd_end w))
                 (period_summary (assign_date df dates) (pytd_start w) (pytd_end w))
                 (period_summary (assign_date df dates) (p1ytd_start w) (p1ytd_end w))
                 a (get_fiscal_year a))"
      by (simp add: calculate_ytd_metrics_def assms(1) d w and_then_def Let_def)
    with e show ?thesis by simp
  qed
  have fail: "snd (calculate_ytd_metrics parse df None) = Inl e" if "ytd_windows a = Inl e" for e
    using that by (simp add: calculate_ytd_metrics_def assms(1) d and_then_def Let_def)
  have rows: "as_of_date m = a"
    if "calculate_ytd_metrics parse df None = (df', Inr ms)" "m \<in> set ms" for df' ms m
  proof -
    from calculate_ytd_metrics_result [OF that(1)] assms(1) d obtain ys ps qs where
      "ms = merge_metrics ys ps qs a (get_fiscal_year a)"
      by auto
    with that(2) merge_metrics_row(8) show ?thesis by blast
  qed
  from a d same win fail rows show ?thesis
    by blast
qed


theorem default_as_of_latest_witness:
  "to_datetime [''2022-04-10'' \<mapsto> \<lparr>year = 2022, month = 4, day = 10, tod = 0\<rparr>]
     (map date
        [\<lparr>date = Text ''2022-04-10'', product_name = ''A'', sales_amount = 80,
           quantity = 1, year_month = None, fiscal_year = None\<rparr>,
         \<lparr>date = Stamp \<lparr>year = 2023, month = 4, day = 10, tod = 0\<rparr>, product_name = ''A'',
           sales_amount = 100, quantity = 1, year_month = None, fiscal_year = None\<rparr>,
         \<lparr>date = Stamp \<lparr>year = 2021, month = 4, day = 10, tod = 0\<rparr>, product_name = ''A'',
           sales_amount = 40, quantity = 1, year_month = None, fiscal_year = None\<rparr>])
   = Inr [\<lparr>year = 2022, month = 4, day = 10, tod = 0\<rparr>,
          \<lparr>year = 2023, month = 4, day = 10, tod = 0\<rparr>,
          \<lparr>year = 2021, month = 4, day = 10, tod = 0\<rparr>] \<and>
   default_as_of
     [\<lparr>year = 2022, month = 4, day = 10, tod = 0\<rparr>,
      \<lparr>year = 2023, month = 4, day = 10, tod = 0\<rparr>,
      \<lparr>year = 2021, month = 4, day = 10, tod = 0\<rparr>] None
   = Some \<lparr>year = 2023, month = 4, day = 10, tod = 0\<rparr> \<and>
   map_sum id ytd_end (ytd_windows \<lparr>year = 2023, month = 4, day = 10, tod = 0\<rparr>)
   = Inr \<lparr>year = 2023, month = 4, day = 10, tod = 0\<rparr> \<and>
   calculate_ytd_metrics [''2022-04-10'' \<mapsto> \<lparr>year = 2022, month = 4, day = 10, tod = 0\<rparr>]
     [\<lparr>date = Text ''2022-04-10'', product_name = ''A'', sales_amount = 80,
        quantity = 1, year_month = None, fiscal_year = None\<rparr>,
      \<lparr>date = Stamp \<lparr>year = 2023, month = 4, day = 10, tod = 0\<rparr>, product_name = ''A'',
        sales_amount = 100, quantity = 1, year_month = None, fiscal_year = None\<rparr>,
      \<lparr>date = Stamp \<lparr>year = 2021, month = 4, day = 10, tod = 0\<rparr>, product_name = ''A'',
        sales_amount = 40, quantity = 1, year_month = None, fiscal_year = None\<rparr>]
     None
   = calculate_ytd_metrics [''2022-04-10'' \<mapsto> \<lparr>year = 2022, month = 4, day = 10, tod = 0\<rparr>]
     [\<lparr>date = Text ''2022-04-10'', product_name = ''A'', sales_amount = 80,
        quantity = 1, year_month = None, fiscal_year = None\<rparr>,
      \<lparr>date = Stamp \<lparr>year = 2023, month = 4, day = 10, tod = 0\<rparr>, product_name = ''A'',
        sales_amount = 100, quantity = 1, year_month = None, fiscal_year = None\<rparr>,
      \<lparr>date = Stamp \<lparr>year = 2021, month = 4, day = 10, tod = 0\<rparr>, product_name = ''A'',
        sales_amount = 40, quantity = 1, year_month = None, fiscal_year = None\<rparr>]
     (Some \<lparr>year = 2023, month = 4, day = 10, tod = 0\<rparr>) \<and>
   snd (calculate_ytd_metrics
     [''2022-04-10'' \<mapsto> \<lparr>year = 2022, month = 4, day = 10, tod = 0\<rparr>]
     [\<lparr>date = Text ''2022-04-10'', product_name = ''A'', sales_amount = 80,
        quantity = 1, year_month = None, fiscal_year = None\<rparr>,
      \<lparr>date = Stamp \<lparr>year = 2023, month = 4, day = 10, tod = 0\<rparr>, product_name = ''A'',
        sales_amount = 100, quantity = 1, year_month = None, fiscal_year = None\<rparr>,
      \<lparr>date = Stamp \<lparr>year = 2021, month = 4, day = 10, tod = 0\<rparr>, product_name = ''A'',
        sales_amount = 40, quantity = 1, year_month = None, fiscal_year = None\<rparr>]
     None)
   = Inr [\<lparr>product_name = ''A'', ytd_sales = 100, ytd_quantity = 1, pytd_sales = 80,
            pytd_quantity = 1, p1ytd_sales = 40, p1ytd_quantity = 1,
            as_of_date = \<lparr>year = 2023, month = 4, day = 10, tod = 0\<rparr>,
            fiscal_year = ''FY 2023-24''\<rparr>]"
proof -
  let ?parse = "[''2022-04-10'' \<mapsto> \<lparr>year = 2022, month = 4, day = 10, tod = 0\<rparr>]"
  let ?a = "\<lparr>year = 2023, month = 4, day = 10, tod = 0\<rparr>"
  let ?b = "\<lparr>year = 2022, month = 4, day = 10, tod = 0\<rparr>"
  let ?c = "\<lparr>year = 2021, month = 4, day = 10, tod = 0\<rparr>"
  let ?row = "\<lambda>d p v q. \<lparr>date = d, product_name = p, sales_amount = v, quantity = q,
      year_month = None, fiscal_year = None\<rparr>"
  let ?df = "[?row (Text ''2022-04-10'') ''A'' 80 1, ?row (Stamp ?a) ''A'' 100 1,
      ?row (Stamp ?c) ''A'' 40 1]"
  let ?dd = "[?row ?b ''A'' 80 1, ?row ?a ''A'' 100 1, ?row ?c ''A'' 40 1]"
  let ?dates = "[?b, ?a, ?c]"
  let ?w = "\<lparr>ytd_start = \<lparr>year = 2023, month = 4, day = 1, tod = 0\<rparr>, ytd_end = ?a,
            pytd_start = \<lparr>year = 2022, month = 4, day = 1, tod = 0\<rparr>, pytd_end = ?b,
            p1ytd_start = \<lparr>year = 2021, month = 4, day = 1, tod = 0\<rparr>, p1ytd_end = ?c\<rparr>"
  have conv: "to_datetime ?parse (map date ?df) = Inr ?dates"
    by (simp add: to_datetime_cell_def and_then_def)
  have ne: "?df \<noteq> []"
    by simp
  have latest: "default_as_of ?dates None = Some ?a"
    by (simp add: default_as_of_def dt_le_def dt_key_def)
  have w: "ytd_windows ?a = Inr ?w"
    by code_simp
  have fy: "get_fiscal_year ?a = ''FY 2023-24''"
    by code_simp
  have dd: "assign_date ?df ?dates = ?dd"
    by (simp add: assign_date_def set_date_def)
  have ys: "period_summary ?dd \<lparr>year = 2023, month = 4, day = 1, tod = 0\<rparr> ?a = [(''A'', 100, 1)]"
    by (simp add: groupby_eval f64_eval dt_le_def dt_key_def)
  have ps: "period_summary ?dd \<lparr>year = 2022, month = 4, day = 1, tod = 0\<rparr> ?b = [(''A'', 80, 1)]"
    by (simp add: groupby_eval f64_eval dt_le_def dt_key_def)
  have qs: "period_summary ?dd \<lparr>year = 2021, month = 4, day = 1, tod = 0\<rparr> ?c = [(''A'', 40, 1)]"
    by (simp add: groupby_eval f64_eval dt_le_def dt_key_def)
  have mm: "merge_metrics [(''A'', 100, 1)] [(''A'', 80, 1)] [(''A'', 40, 1)] ?a ''FY 2023-24''
      = [\<lparr>product_name = ''A'', ytd_sales = 100, ytd_quantity = 1, pytd_sales = 80,
            pytd_quantity = 1, p1ytd_sales = 40, p1ytd_quantity = 1,
            as_of_date = ?a, fiscal_year = ''FY 2023-24''\<rparr>]"
    by (simp add: merge_metrics_def merge_outer_def fillna_def Let_def)
  from default_as_of_latest [OF conv ne] latest obtain
    same: "calculate_ytd_metrics ?parse ?df None = calculate_ytd_metrics ?parse ?df (Some ?a)"
    and win: "\<forall>w. ytd_windows ?a = Inr w \<longrightarrow>
              ytd_end w = ?a \<and>
              snd (calculate_ytd_metrics ?parse ?df None)
                = Inr (merge_metrics
                         (period_summary (assign_date ?df ?dates) (ytd_start w) ?a)
                         (period_summary (assign_date ?df ?dates) (pytd_start w) (pytd_end w))
                         (period_summary (assign_date ?df ?dates) (p1ytd_start w) (p1ytd_end w))
                         ?a (get_fiscal_year ?a))"
    by auto
  from win [rule_format, OF w] have
    res: "snd (calculate_ytd_metrics ?parse ?df None)
       = Inr (merge_metrics
                (period_summary (assign_date ?df ?dates) (ytd_start ?w) ?a)
                (period_summary (assign_date ?df ?dates) (pytd_start ?w) (pytd_end ?w))
                (period_summary (assign_date ?df ?dates) (p1ytd_start ?w) (p1ytd_end ?w))
                ?a (get_fiscal_year ?a))"
    by (rule conjunct2)
  have out: "snd (calculate_ytd_metrics ?parse ?df None)
       = Inr [\<lparr>product_name = ''A'', ytd_sales = 100, ytd_quantity = 1, pytd_sales = 80,
            pytd_quantity = 1, p1ytd_sales = 40, p1ytd_quantity = 1,
            as_of_date = ?a, fiscal_year = ''FY 2023-24''\<rparr>]"
    unfolding res dd by (simp add: ys ps qs fy mm)
  have e: "map_sum id ytd_end (ytd_windows ?a) = Inr ?a"
    unfolding w by simp
  from conv latest e same out show ?thesis
    by (intro conjI)
qed

section \<open>Effects on the table of the caller\<close>

text \<open>
  A table whose dates are all dates already comes back from \<open>calculate_ytd_metrics\<close> with
  the cells it had.
\<close>

lemma to_datetime_stamps:
  "to_datetime parse (map Stamp ds) = Inr ds"
  by (induction ds) (simp_all add: to_datetime_cell_def and_then_def)

lemma assign_date_same:
  "assign_date df (map date df) = df"
  by (induction df) (simp_all add: assign_date_def set_date_def)

lemma calculate_ytd_metrics_keeps_dates:
  assumes "\<forall>r \<in> set df. \<exists>d. date r = Stamp d"
  shows "fst (calculate_ytd_metrics parse df as_of_arg) = df"
proof -
  define ds where "ds = map (\<lambda>r. case date r of Stamp d \<Rightarrow> d
      | Text s \<Rightarrow> \<lparr>year = 1, month = 1, day = 1, tod = 0\<rparr>) df"
  from assms have cells: "map date df = map Stamp ds"
    by (auto simp: ds_def)
  have "to_datetime parse (map date df) = Inr ds"
    unfolding cells by (rule to_datetime_stamps)
  moreover have "assign_date df (map Stamp ds) = df"
    unfolding cells [symmetric] by (rule assign_date_same)
  ultimately show ?thesis
    by (simp add: calculate_ytd_metrics_def)
qed


text \<open>
  C7. Two of the four stages assign to columns of the table they are given.
  \<open>get_monthly_trends\<close> leaves a table that already holds dates with two more columns,
  \<^verbatim>\<open>year_month\<close> and \<^verbatim>\<open>fiscal_year\<close>; \<open>calculate_ytd_metrics\<close> leaves a table whose dates
  were text with dates in their place. The table after the call is not the table before it.
  The other two stages, \<^verbatim>\<open>calculate_deltas\<close> and \<^verbatim>\<open>get_category_performance\<close>, copy the
  table they are given before they assign to it.
\<close>

theorem stages_mutate_input:
  "fst (get_monthly_trends (\<lambda>s. None)
          [\<lparr>date = Stamp \<lparr>year = 2023, month = 4, day = 10, tod = 0\<rparr>, product_name = ''A'',
             sales_amount = 100, quantity = 1, year_month = None, fiscal_year = None\<rparr>])
   = [\<lparr>date = Stamp \<lparr>year = 2023, month = 4, day = 10, tod = 0\<rparr>, product_name = ''A'',
        sales_amount = 100, quantity = 1, year_month = Some (2023, 4),
        fiscal_year = Some ''FY 2023-24''\<rparr>] \<and>
   fst (get_monthly_trends (\<lambda>s. None)
          [\<lparr>date = Stamp \<lparr>year = 2023, month = 4, day = 10, tod = 0\<rparr>, product_name = ''A'',
             sales_amount = 100, quantity = 1, year_month = None, fiscal_year = None\<rparr>])
   \<noteq> [\<lparr>date = Stamp \<lparr>year = 2023, month = 4, day = 10, tod = 0\<rparr>, product_name = ''A'',
        sales_amount = 100, quantity = 1, year_month = None, fiscal_year = None\<rparr>] \<and>
   fst (calculate_ytd_metrics [''2023-04-10'' \<mapsto> \<lparr>year = 2023, month = 4, day = 10, tod = 0\<rparr>]
          [\<lparr>date = Text ''2023-04-10'', product_name = ''A'',
             sales_amount = 100, quantity = 1, year_month = None, fiscal_year = None\<rparr>]
          None)
   = [\<lparr>date = Stamp \<lparr>year = 2023, month = 4, day = 10, tod = 0\<rparr>, product_name = ''A'',
        sales_amount = 100, quantity = 1, year_month = None, fiscal_year = None\<rparr>] \<and>
   fst (calculate_ytd_metrics [''2023-04-10'' \<mapsto> \<lparr>year = 2023, month = 4, day = 10, tod = 0\<rparr>]
          [\<lparr>date = Text ''2023-04-10'', product_name = ''A'',
             sales_amount = 100, quantity = 1, year_month = None, fiscal_year = None\<rparr>]
          None)
   \<noteq> [\<lparr>date = Text ''2023-04-10'', product_name = ''A'',
        sales_amount = 100, quantity = 1, year_month = None, fiscal_year = None\<rparr>]"
proof -
  have fy: "get_fiscal_year \<lparr>year = 2023, month = 4, day = 10, tod = 0\<rparr> = ''FY 2023-24''"
    by code_simp
  show ?thesis
    by (simp add: get_monthly_trends_def calculate_ytd_metrics_def to_datetime_cell_def
        and_then_def set_trend_columns_def assign_date_def set_date_def fy)
qed

end
